theory Spec2Isabelle
  imports Complex_Main "HOL-Library.Multiset"
begin

section \<open>Verification service (services/verification.js)\<close>

text \<open>
  JavaScript strings are modelled by their UTF-8 bytes, as \<open>Buffer.from\<close> sees them:
  a \<^typ>\<open>string\<close> is the list of bytes of the text. Clock readings
  (\<open>Date.now()\<close>, \<open>new Date()\<close>) are milliseconds since the epoch, a \<^typ>\<open>nat\<close>
  handed to the function that reads the clock.
\<close>

subsection \<open>String primitives\<close>

text \<open>\<open>s.includes(sub)\<close>: \<open>sub\<close> occurs in \<open>s\<close> as a contiguous substring.\<close>

fun str_includes :: "string \<Rightarrow> string \<Rightarrow> bool" where
  "str_includes [] sub = (sub = [])"
| "str_includes (c # cs) sub = (take (length sub) (c # cs) = sub \<or> str_includes cs sub)"

text \<open>\<open>s.toLowerCase()\<close> on ASCII text (token addresses are hexadecimal).\<close>

definition lower_char :: "char \<Rightarrow> char" where
  "lower_char c =
     (case map_of (zip ''ABCDEFGHIJKLMNOPQRSTUVWXYZ'' ''abcdefghijklmnopqrstuvwxyz'') c of
        Some l \<Rightarrow> l
      | None \<Rightarrow> c)"

definition toLowerCase :: "string \<Rightarrow> string" where
  "toLowerCase s = map lower_char s"

text \<open>The decimal rendering of a number, as \<open>proof + Date.now()\<close> appends it.\<close>

definition digit_char :: "nat \<Rightarrow> char" where
  "digit_char d = ''0123456789'' ! (d mod 10)"

fun decimal :: "nat \<Rightarrow> string" where
  "decimal n = (if n < 10 then [digit_char n] else decimal (n div 10) @ [digit_char (n mod 10)])"

declare decimal.simps [simp del]

text \<open>\<open>Buffer.toString('base64')\<close>: the standard alphabet, three bytes to four
  characters, padded with \<open>=\<close>.\<close>

definition b64_alphabet :: string where
  "b64_alphabet = ''ABCDEFGHIJKLMNOPQRSTUVWXYZabcdefghijklmnopqrstuvwxyz0123456789+/''"

definition b64_char :: "nat \<Rightarrow> char" where
  "b64_char i = b64_alphabet ! (i mod 64)"

fun base64 :: "string \<Rightarrow> string" where
  "base64 (a # b # c # rest) =
     (let x = (of_char a :: nat); y = (of_char b :: nat); z = (of_char c :: nat) in
      [b64_char (x div 4), b64_char ((x mod 4) * 16 + y div 16),
       b64_char ((y mod 16) * 4 + z div 64), b64_char (z mod 64)]) @ base64 rest"
| "base64 [a, b] =
     (let x = (of_char a :: nat); y = (of_char b :: nat) in
      [b64_char (x div 4), b64_char ((x mod 4) * 16 + y div 16),
       b64_char ((y mod 16) * 4), CHR ''=''])"
| "base64 [a] =
     (let x = (of_char a :: nat) in
      [b64_char (x div 4), b64_char ((x mod 4) * 16), CHR ''='', CHR ''=''])"
| "base64 [] = []"

subsection \<open>Proof hash\<close>

text \<open>
  \<^verbatim>\<open>generateProofHash(proof) {
    return Buffer.from(proof + Date.now()).toString('base64').substring(0, 32) }\<close>
  The second argument is the value \<open>Date.now()\<close> returns inside the call.
\<close>

definition generateProofHash :: "string \<Rightarrow> nat \<Rightarrow> string" where
  "generateProofHash proof now = take 32 (base64 (proof @ decimal now))"

subsection \<open>Platform detection and the verifiers\<close>

definition getPlatformFromUrl :: "string \<Rightarrow> string" where
  "getPlatformFromUrl contentUrl =
     (if str_includes contentUrl ''spotify.com'' then ''spotify''
      else if str_includes contentUrl ''youtube.com'' \<or> str_includes contentUrl ''youtu.be'' then ''youtube''
      else if str_includes contentUrl ''twitter.com'' \<or> str_includes contentUrl ''x.com'' then ''twitter''
      else if str_includes contentUrl ''instagram.com'' then ''instagram''
      else ''unknown'')"

text \<open>
  A verification result. The object a \<open>catch\<close> branch builds,
  \<open>{ verified: false, error: error.message }\<close>, has an \<open>error\<close> field and none of the
  others; \<open>v_error\<close> is \<open>None\<close> on the objects the verifiers build.
\<close>

record verification =
  verified :: bool
  platform :: string
  v_action :: string
  timestamp :: nat
  proofHash :: string
  v_error :: "string option"

text \<open>
  The clock readings of one request, in the order they are taken: \<open>t_now\<close> is the
  handler's \<open>const now = new Date()\<close>; \<open>t_stamp\<close> is the \<open>new Date()\<close> of the
  verifier's \<open>timestamp\<close> field; \<open>t_hash\<close> is the \<open>Date.now()\<close> inside
  \<open>generateProofHash\<close>; \<open>t_write\<close> is the \<open>new Date()\<close> stored as \<open>verifiedAt\<close> or
  \<open>claimedAt\<close>. The verification service reads \<open>t_stamp\<close> and \<open>t_hash\<close> only.
\<close>

record clock =
  t_now :: nat
  t_stamp :: nat
  t_hash :: nat
  t_write :: nat

datatype error =
    OnlyCreators
  | EndDateNotAfterStart
  | BudgetTokenNotAllowed string
  | RewardTokenNotAllowed string
  | ValidationError string
  | OnlyFansParticipate
  | OnlyFansClaim
  | CampaignNotFound
  | CampaignNotActive
  | OutsideDateWindow
  | ActionNotRewarded string
  | VerificationFailed
  | MaxClaimsReached nat string
  | NotParticipated
  | ActionNotVerified
  | MaxRewardsClaimed nat
  | UnsupportedAction string
  | InvalidPage
  | InvalidLimit

text \<open>
  The platform verifiers are mocks: each logs and returns a verified result; none of
  them raises. They return \<open>string + verification\<close> (\<open>Inl\<close> an exception's message)
  so that the \<open>try\<close>/\<open>catch\<close> of their callers is a branch of the model.
\<close>

definition platformVerified :: "string \<Rightarrow> string \<Rightarrow> string \<Rightarrow> clock \<Rightarrow> string + verification" where
  "platformVerified plat act proof clk =
     Inr \<lparr>verified = True, platform = plat, v_action = act, timestamp = t_stamp clk,
          proofHash = generateProofHash proof (t_hash clk), v_error = None\<rparr>"

definition verifySpotifyStream :: "string \<Rightarrow> string \<Rightarrow> string \<Rightarrow> clock \<Rightarrow> string + verification" where
  "verifySpotifyStream contentUrl proof userWallet clk = platformVerified ''spotify'' ''stream'' proof clk"

definition verifyYouTubeStream :: "string \<Rightarrow> string \<Rightarrow> string \<Rightarrow> clock \<Rightarrow> string + verification" where
  "verifyYouTubeStream contentUrl proof userWallet clk = platformVerified ''youtube'' ''stream'' proof clk"

definition verifyTwitterShare :: "string \<Rightarrow> string \<Rightarrow> string \<Rightarrow> clock \<Rightarrow> string + verification" where
  "verifyTwitterShare contentUrl proof userWallet clk = platformVerified ''twitter'' ''share'' proof clk"

definition verifyTwitterFollow :: "string \<Rightarrow> string \<Rightarrow> string \<Rightarrow> clock \<Rightarrow> string + verification" where
  "verifyTwitterFollow contentUrl proof userWallet clk = platformVerified ''twitter'' ''follow'' proof clk"

definition verifySpotifyFollow :: "string \<Rightarrow> string \<Rightarrow> string \<Rightarrow> clock \<Rightarrow> string + verification" where
  "verifySpotifyFollow contentUrl proof userWallet clk = platformVerified ''spotify'' ''follow'' proof clk"

definition verifyYouTubeLike :: "string \<Rightarrow> string \<Rightarrow> string \<Rightarrow> clock \<Rightarrow> string + verification" where
  "verifyYouTubeLike contentUrl proof userWallet clk = platformVerified ''youtube'' ''like'' proof clk"

definition verifyYouTubeComment :: "string \<Rightarrow> string \<Rightarrow> string \<Rightarrow> clock \<Rightarrow> string + verification" where
  "verifyYouTubeComment contentUrl proof userWallet clk = platformVerified ''youtube'' ''comment'' proof clk"

text \<open>\<open>mockVerification(action, platform)\<close> hashes the text
  \<open>mock-<action>-<platform>\<close>, not the caller's proof.\<close>

definition mockVerification :: "string \<Rightarrow> string \<Rightarrow> clock \<Rightarrow> string + verification" where
  "mockVerification act plat clk =
     platformVerified plat act (''mock-'' @ act @ ''-'' @ plat) clk"

text \<open>The \<open>catch\<close> of the five \<open>verify<Action>\<close> methods.\<close>

definition caught :: "string + verification \<Rightarrow> verification" where
  "caught r = (case r of
       Inr v \<Rightarrow> v
     | Inl msg \<Rightarrow> \<lparr>verified = False, platform = [], v_action = [], timestamp = 0,
                    proofHash = [], v_error = Some msg\<rparr>)"

definition verifyStream :: "string \<Rightarrow> string \<Rightarrow> string \<Rightarrow> clock \<Rightarrow> verification" where
  "verifyStream contentUrl proof userWallet clk =
     (let plat = getPlatformFromUrl contentUrl in
      caught (if plat = ''spotify'' then verifySpotifyStream contentUrl proof userWallet clk
              else if plat = ''youtube'' then verifyYouTubeStream contentUrl proof userWallet clk
              else mockVerification ''stream'' plat clk))"

definition verifyShare :: "string \<Rightarrow> string \<Rightarrow> string \<Rightarrow> clock \<Rightarrow> verification" where
  "verifyShare contentUrl proof userWallet clk =
     (let plat = getPlatformFromUrl contentUrl in
      caught (if plat = ''twitter'' then verifyTwitterShare contentUrl proof userWallet clk
              else mockVerification ''share'' plat clk))"

definition verifyFollow :: "string \<Rightarrow> string \<Rightarrow> string \<Rightarrow> clock \<Rightarrow> verification" where
  "verifyFollow contentUrl proof userWallet clk =
     (let plat = getPlatformFromUrl contentUrl in
      caught (if plat = ''twitter'' then verifyTwitterFollow contentUrl proof userWallet clk
              else if plat = ''spotify'' then verifySpotifyFollow contentUrl proof userWallet clk
              else mockVerification ''follow'' plat clk))"

definition verifyLike :: "string \<Rightarrow> string \<Rightarrow> string \<Rightarrow> clock \<Rightarrow> verification" where
  "verifyLike contentUrl proof userWallet clk =
     (let plat = getPlatformFromUrl contentUrl in
      caught (if plat = ''youtube'' then verifyYouTubeLike contentUrl proof userWallet clk
              else mockVerification ''like'' plat clk))"

definition verifyComment :: "string \<Rightarrow> string \<Rightarrow> string \<Rightarrow> clock \<Rightarrow> verification" where
  "verifyComment contentUrl proof userWallet clk =
     (let plat = getPlatformFromUrl contentUrl in
      caught (if plat = ''youtube'' then verifyYouTubeComment contentUrl proof userWallet clk
              else mockVerification ''comment'' plat clk))"

text \<open>\<open>verifyAction\<close>: the \<open>switch\<close> on the action; its \<open>default\<close> throws.\<close>

definition verifyAction :: "string \<Rightarrow> string \<Rightarrow> string \<Rightarrow> string \<Rightarrow> clock \<Rightarrow> error + verification" where
  "verifyAction act contentUrl proof userWallet clk =
     (if act = ''stream'' then Inr (verifyStream contentUrl proof userWallet clk)
      else if act = ''share'' then Inr (verifyShare contentUrl proof userWallet clk)
      else if act = ''follow'' then Inr (verifyFollow contentUrl proof userWallet clk)
      else if act = ''like'' then Inr (verifyLike contentUrl proof userWallet clk)
      else if act = ''comment'' then Inr (verifyComment contentUrl proof userWallet clk)
      else Inl (UnsupportedAction act))"

definition recognizedActions :: "string list" where
  "recognizedActions = [''stream'', ''share'', ''comment'', ''like'', ''follow'']"


section \<open>Token allowlist (services/blockchain.js)\<close>

record token =
  address :: string
  name :: string

text \<open>\<open>getAllowedTokens\<close> returns this literal; its five-minute cache stores the same
  list, so a cached answer and a fresh one are equal.\<close>

definition getAllowedTokens :: "token list" where
  "getAllowedTokens =
     [\<lparr>address = ''0x1234567890123456789012345678901234567890'', name = ''USDC''\<rparr>,
      \<lparr>address = ''0xdAC17F958D2ee523a2206206994597C13D831ec7'', name = ''USDT''\<rparr>,
      \<lparr>address = ''0x6033F7f88332B8db6ad452b7C6d5bb643990ae3f'', name = ''LSK''\<rparr>,
      \<lparr>address = ''0x1f9840a85d5aF5bf1D1762F925BDADdC4201F984'', name = ''UNI''\<rparr>]"

definition isTokenAllowed :: "string \<Rightarrow> bool" where
  "isTokenAllowed tokenAddress =
     list_ex (\<lambda>t. toLowerCase (address t) = toLowerCase tokenAddress) getAllowedTokens"

section \<open>Documents (models/Campaign.js, the User model)\<close>

text \<open>
  Object ids are modelled by their hexadecimal text (what \<open>toString()\<close> gives), dates by
  milliseconds since the epoch, JavaScript numbers that are only stored and copied
  (\<open>amount\<close>, \<open>rewardAmount\<close>) by rationals. \<open>maxClaims\<close> is optional in the schema
  (\<open>{ type: Number, min: 0 }\<close>): \<open>None\<close> is an absent field, \<open>Some n\<close> a stored count.
\<close>

record budget =
  b_amount :: rat
  b_token :: token

record rewardRule =
  action :: string
  rewardAmount :: rat
  r_token :: token
  maxClaims :: "nat option"

record actionRecord =
  actionType :: string
  verifiedAt :: nat
  a_proof :: string

record participant =
  userId :: string
  actions :: "actionRecord list"

record campaign =
  cid :: string
  creatorId :: string
  title :: string
  description :: string
  c_budget :: budget
  rewardRules :: "rewardRule list"
  status :: string
  startDate :: nat
  endDate :: nat
  contentUrl :: string
  totalTVL :: nat
  participants :: "participant list"
  createdAt :: nat

record rewardEntry =
  campaignId :: string
  amount :: rat
  e_token :: token
  claimedAt :: nat

record user =
  uid :: string
  walletAddress :: string
  username :: string
  role :: string
  campaignsCreated :: "string list"
  campaignsParticipated :: "string list"
  rewardsEarned :: "rewardEntry list"

text \<open>The two collections. A handler returns the store it leaves behind together
  with its answer: every write the source performs is an update of this value.\<close>

record db =
  campaigns :: "campaign list"
  users :: "user list"

text \<open>\<open>Campaign.findById(id)\<close>: the id text of the request is cast to an object id,
  which reads the 24 hexadecimal digits in either letter case (the routes' \<open>isMongoId\<close>
  check admits both), while a stored id prints in lower case. The lookup therefore
  compares the stored text with the lower-cased request text.\<close>

definition Campaign_findById :: "db \<Rightarrow> string \<Rightarrow> campaign option" where
  "Campaign_findById d i = find (\<lambda>c. cid c = toLowerCase i) (campaigns d)"

text \<open>\<open>campaign.save()\<close>: the stored document with this id is replaced.\<close>

definition Campaign_save :: "campaign \<Rightarrow> db \<Rightarrow> db" where
  "Campaign_save c d = d\<lparr>campaigns := map (\<lambda>x. if cid x = cid c then c else x) (campaigns d)\<rparr>"

definition User_findById :: "db \<Rightarrow> string \<Rightarrow> user option" where
  "User_findById d i = find (\<lambda>u. uid u = i) (users d)"

definition User_update :: "string \<Rightarrow> (user \<Rightarrow> user) \<Rightarrow> db \<Rightarrow> db" where
  "User_update i f d = d\<lparr>users := map (\<lambda>u. if uid u = i then f u else u) (users d)\<rparr>"

text \<open>\<open>$push\<close> and \<open>$addToSet\<close> on a list field.\<close>

definition addToSet :: "'a \<Rightarrow> 'a list \<Rightarrow> 'a list" where
  "addToSet x xs = (if x \<in> set xs then xs else xs @ [x])"

text \<open>JavaScript truthiness of an optional number (\<open>if (rewardRule.maxClaims)\<close>):
  \<open>undefined\<close> and \<open>0\<close> are falsy.\<close>

definition truthy :: "nat option \<Rightarrow> bool" where
  "truthy m = (case m of None \<Rightarrow> False | Some n \<Rightarrow> n \<noteq> 0)"

text \<open>Truthiness of an optional string (\<open>if (status)\<close>): \<open>undefined\<close> and \<open>''\<close> are falsy.\<close>

definition truthy_str :: "string option \<Rightarrow> bool" where
  "truthy_str s = (case s of None \<Rightarrow> False | Some x \<Rightarrow> x \<noteq> [])"

section \<open>validateCampaignTokens (services/blockchain.js)\<close>

fun validateRewardTokens :: "rewardRule list \<Rightarrow> error + bool" where
  "validateRewardTokens [] = Inr True"
| "validateRewardTokens (rule # rest) =
     (if \<not> isTokenAllowed (address (r_token rule))
      then Inl (RewardTokenNotAllowed (address (r_token rule)))
      else validateRewardTokens rest)"

definition validateCampaignTokens :: "budget \<Rightarrow> rewardRule list \<Rightarrow> error + bool" where
  "validateCampaignTokens bud rules =
     (if \<not> isTokenAllowed (address (b_token bud))
      then Inl (BudgetTokenNotAllowed (address (b_token bud)))
      else validateRewardTokens rules)"

section \<open>Campaign controller (controllers/campaignController.js)\<close>

subsection \<open>createCampaign\<close>

record createBody =
  req_title :: string
  req_description :: string
  req_budget :: budget
  req_rewardRules :: "rewardRule list"
  req_startDate :: nat
  req_endDate :: nat
  req_contentUrl :: string

text \<open>
  \<open>Campaign.create\<close> builds the document through the schema: the driver chooses the
  new \<open>_id\<close>, the schema fills \<open>status\<close>, \<open>totalTVL\<close>, \<open>participants\<close> and \<open>createdAt\<close>
  with their defaults, and the schema's validators may reject the document, in which
  case nothing is inserted. The validators' verdict is the parameter \<open>schemaError\<close>
  (\<open>None\<close>: the document is valid); \<open>newId\<close> and \<open>now\<close> are the id and the creation
  time the insert uses.
\<close>

definition Campaign_create ::
  "(campaign \<Rightarrow> string option) \<Rightarrow> string \<Rightarrow> nat \<Rightarrow> string \<Rightarrow> createBody \<Rightarrow> db \<Rightarrow> error + (campaign \<times> db)" where
  "Campaign_create schemaError newId now creator body d =
     (let doc = \<lparr>cid = newId, creatorId = creator, title = req_title body,
                 description = req_description body, c_budget = req_budget body,
                 rewardRules = req_rewardRules body, status = ''draft'',
                 startDate = req_startDate body, endDate = req_endDate body,
                 contentUrl = req_contentUrl body, totalTVL = 0, participants = [],
                 createdAt = now\<rparr>
      in case schemaError doc of
           Some msg \<Rightarrow> Inl (ValidationError msg)
         | None \<Rightarrow> Inr (doc, d\<lparr>campaigns := campaigns d @ [doc]\<rparr>))"

definition createCampaign ::
  "(campaign \<Rightarrow> string option) \<Rightarrow> string \<Rightarrow> nat \<Rightarrow> user \<Rightarrow> createBody \<Rightarrow> db \<Rightarrow> db \<times> (error + campaign)" where
  "createCampaign schemaError newId now req_user body d =
     (if role req_user \<noteq> ''creator'' then (d, Inl OnlyCreators)
      else if req_startDate body \<ge> req_endDate body then (d, Inl EndDateNotAfterStart)
      else case validateCampaignTokens (req_budget body) (req_rewardRules body) of
        Inl e \<Rightarrow> (d, Inl e)
      | Inr _ \<Rightarrow>
         (case Campaign_create schemaError newId now (uid req_user) body d of
            Inl e \<Rightarrow> (d, Inl e)
          | Inr (c, d') \<Rightarrow>
              (User_update (uid req_user)
                 (\<lambda>u. u\<lparr>campaignsCreated := campaignsCreated u @ [cid c]\<rparr>) d',
               Inr c)))"

subsection \<open>getCampaigns\<close>

text \<open>
  The query string of \<open>GET /api/campaigns\<close>. \<open>page\<close> and \<open>limit\<close> are what \<open>parseInt\<close>
  reads from the text the client sent (\<open>None\<close>: the parameter is absent and the
  handler's defaults 1 and 10 apply); the two date bounds are the parsed dates.
\<close>

record listQuery =
  q_status :: "string option"
  q_creator :: "string option"
  q_startDate :: "nat option"
  q_endDate :: "nat option"
  q_page :: "nat option"
  q_limit :: "nat option"

text \<open>The Mongo filter object the handler builds: an absent key constrains nothing.\<close>

record campaignFilter =
  f_status :: "string option"
  f_creatorId :: "string option"
  f_startGte :: "nat option"
  f_startLte :: "nat option"

definition matchesFilter :: "campaignFilter \<Rightarrow> campaign \<Rightarrow> bool" where
  "matchesFilter f c =
     ((case f_status f of None \<Rightarrow> True | Some s \<Rightarrow> status c = s) \<and>
      (case f_creatorId f of None \<Rightarrow> True | Some i \<Rightarrow> creatorId c = i) \<and>
      (case f_startGte f of None \<Rightarrow> True | Some t \<Rightarrow> t \<le> startDate c) \<and>
      (case f_startLte f of None \<Rightarrow> True | Some t \<Rightarrow> startDate c \<le> t))"

definition buildFilter :: "listQuery \<Rightarrow> db \<Rightarrow> campaignFilter" where
  "buildFilter q d =
     \<lparr>f_status = (if truthy_str (q_status q) then q_status q else None),
      f_creatorId =
        (if truthy_str (q_creator q)
         then (case find (\<lambda>u. Some (username u) = q_creator q) (users d) of
                 Some creatorUser \<Rightarrow> Some (uid creatorUser)
               | None \<Rightarrow> None)
         else None),
      f_startGte = q_startDate q,
      f_startLte = q_endDate q\<rparr>"

text \<open>\<open>.sort({ createdAt: -1 })\<close>: newest first. Documents with equal \<open>createdAt\<close> keep
  their stored order here; MongoDB promises no particular order among them.\<close>

definition sortNewestFirst :: "campaign list \<Rightarrow> campaign list" where
  "sortNewestFirst cs = sort_key (\<lambda>c. - int (createdAt c)) cs"

record pagination =
  pg_page :: nat
  pg_limit :: nat
  pg_total :: nat
  pg_pages :: nat

record listResult =
  res_campaigns :: "campaign list"
  res_pagination :: pagination

text \<open>\<open>Math.ceil(total / limit)\<close>, on the exact quotient.\<close>

definition pageCount :: "nat \<Rightarrow> nat \<Rightarrow> nat" where
  "pageCount tot limit = nat \<lceil>rat_of_nat tot / rat_of_nat limit\<rceil>"

definition getCampaigns :: "listQuery \<Rightarrow> db \<Rightarrow> listResult" where
  "getCampaigns q d =
     (let page = (case q_page q of None \<Rightarrow> 1 | Some p \<Rightarrow> p);
          limit = (case q_limit q of None \<Rightarrow> 10 | Some l \<Rightarrow> l);
          flt = buildFilter q d;
          skip = (page - 1) * limit;
          found = take limit (drop skip (sortNewestFirst (filter (matchesFilter flt) (campaigns d))));
          tot = length (filter (matchesFilter flt) (campaigns d))
      in \<lparr>res_campaigns = found,
          res_pagination = \<lparr>pg_page = page, pg_limit = limit, pg_total = tot,
                             pg_pages = pageCount tot limit\<rparr>\<rparr>)"

text \<open>\<open>validatePagination\<close> (middleware/validate.js) runs before the handler on this
  route: \<open>page\<close> is an integer from 1, \<open>limit\<close> an integer from 1 to 100.\<close>

definition validatePagination :: "listQuery \<Rightarrow> error option" where
  "validatePagination q =
     (if (case q_page q of None \<Rightarrow> False | Some p \<Rightarrow> p < 1) then Some InvalidPage
      else if (case q_limit q of None \<Rightarrow> False | Some l \<Rightarrow> l < 1 \<or> 100 < l) then Some InvalidLimit
      else None)"

definition listCampaigns :: "listQuery \<Rightarrow> db \<Rightarrow> error + listResult" where
  "listCampaigns q d =
     (case validatePagination q of Some e \<Rightarrow> Inl e | None \<Rightarrow> Inr (getCampaigns q d))"

subsection \<open>participateInCampaign\<close>

record participation =
  pr_verification :: verification
  rewardEligible :: bool
  pr_rewardAmount :: rat
  pr_rewardToken :: token

text \<open>
  \<open>campaign.participants\<close> is a Mongoose document array (models/Campaign.js). The
  element \<open>find\<close> returns is the stored subdocument, so pushing onto its \<open>actions\<close>
  changes the campaign document. For a fan without an entry the handler builds a plain
  object and pushes it: the array stores a subdocument cast from the object, a copy,
  and the handler's variable \<open>participant\<close> keeps the plain object. What the handler
  later pushes onto \<open>participant.actions\<close> is then not part of the document that
  \<open>campaign.save()\<close> writes: the new entry is saved with \<open>actions = []\<close>.
\<close>

definition findParticipant :: "string \<Rightarrow> participant list \<Rightarrow> participant option" where
  "findParticipant u ps = find (\<lambda>p. userId p = u) ps"

text \<open>\<open>participant.actions.push(r)\<close> on the stored entry of user \<open>u\<close>, the first of the
  list with this user id.\<close>

fun pushAction :: "string \<Rightarrow> actionRecord \<Rightarrow> participant list \<Rightarrow> participant list" where
  "pushAction u r [] = []"
| "pushAction u r (p # ps) =
     (if userId p = u then p\<lparr>actions := actions p @ [r]\<rparr> # ps else p # pushAction u r ps)"

definition actionCount :: "string \<Rightarrow> participant \<Rightarrow> nat" where
  "actionCount act p = length (filter (\<lambda>a. actionType a = act) (actions p))"

text \<open>
  The handler in three parts, in the order of the source. \<open>locateParticipant\<close> is the
  find-or-push of the participant, with the \<open>$addToSet\<close> on the user, which is written
  at once; its last component tells whether \<open>participant\<close> is the stored subdocument
  (found) or the detached plain object (just created). \<open>recordAction\<close> is the cap
  check, the push of the action and \<open>campaign.save()\<close>. \<open>participateInCampaign\<close> is the
  whole handler, the checks first.
\<close>

definition locateParticipant ::
  "user \<Rightarrow> campaign \<Rightarrow> db \<Rightarrow> campaign \<times> db \<times> participant \<times> bool" where
  "locateParticipant req_user c d =
     (case findParticipant (uid req_user) (participants c) of
        Some p \<Rightarrow> (c, d, p, True)
      | None \<Rightarrow>
          (c\<lparr>participants := participants c @ [\<lparr>userId = uid req_user, actions = []\<rparr>]\<rparr>,
           User_update (uid req_user)
             (\<lambda>u. u\<lparr>campaignsParticipated := addToSet (cid c) (campaignsParticipated u)\<rparr>) d,
           \<lparr>userId = uid req_user, actions = []\<rparr>,
           False))"

definition recordAction ::
  "user \<Rightarrow> string \<Rightarrow> clock \<Rightarrow> rewardRule \<Rightarrow> verification \<Rightarrow> campaign \<Rightarrow> db \<Rightarrow> db \<times> (error + participation)" where
  "recordAction req_user act clk rewardRule v c d =
     (case locateParticipant req_user c d of (c1, d1, p, stored) \<Rightarrow>
        if truthy (maxClaims rewardRule) \<and> actionCount act p \<ge> the (maxClaims rewardRule)
        then (d1, Inl (MaxClaimsReached (the (maxClaims rewardRule)) act))
        else
          (Campaign_save
             (if stored
              then c1\<lparr>participants :=
                       pushAction (uid req_user)
                         \<lparr>actionType = act, verifiedAt = t_write clk, a_proof = proofHash v\<rparr>
                         (participants c1)\<rparr>
              else c1) d1,
           Inr \<lparr>pr_verification = v, rewardEligible = True,
                pr_rewardAmount = rewardAmount rewardRule,
                pr_rewardToken = r_token rewardRule\<rparr>))"

definition participateInCampaign ::
  "user \<Rightarrow> string \<Rightarrow> string \<Rightarrow> string \<Rightarrow> clock \<Rightarrow> db \<Rightarrow> db \<times> (error + participation)" where
  "participateInCampaign req_user i act proof clk d =
     (if role req_user \<noteq> ''fan'' then (d, Inl OnlyFansParticipate)
      else (case Campaign_findById d i of
        None \<Rightarrow> (d, Inl CampaignNotFound)
      | Some c \<Rightarrow>
         (if status c \<noteq> ''active'' then (d, Inl CampaignNotActive)
          else if t_now clk < startDate c \<or> t_now clk > endDate c then (d, Inl OutsideDateWindow)
          else (case find (\<lambda>rule. action rule = act) (rewardRules c) of
            None \<Rightarrow> (d, Inl (ActionNotRewarded act))
          | Some rewardRule \<Rightarrow>
             (case verifyAction act (contentUrl c) proof (walletAddress req_user) clk of
                Inl e \<Rightarrow> (d, Inl e)
              | Inr v \<Rightarrow>
                 (if \<not> verified v then (d, Inl VerificationFailed)
                  else recordAction req_user act clk rewardRule v c d))))))"

section \<open>Reward controller (controllers/rewardController.js)\<close>

record rewardResponse =
  rr_campaignId :: string
  rr_campaignTitle :: string
  rr_action :: string
  rr_amount :: rat
  rr_token :: token
  rr_claimedAt :: nat

text \<open>The count of \<open>req.user.rewardsEarned\<close> entries of this campaign paid in this token
  (the handler's \<open>claimedCount\<close>). The handler compares the printed id of an entry's
  campaign with the id text of the request as it was sent
  (\<open>reward.campaignId.toString() === campaignId\<close>).\<close>

definition claimedCount :: "string \<Rightarrow> string \<Rightarrow> rewardEntry list \<Rightarrow> nat" where
  "claimedCount campaign_id tokenAddress rs =
     length (filter (\<lambda>reward. campaignId reward = campaign_id \<and> address (e_token reward) = tokenAddress) rs)"

text \<open>
  The handler in two parts: \<open>creditReward\<close> is everything after the verification (the
  participant and action lookups, the cap check and the \<open>$push\<close> on the user);
  \<open>claimReward\<close> is the whole handler. The handler's \<open>existingReward\<close> is computed and
  never read, so it has no counterpart here.
\<close>

definition creditReward ::
  "user \<Rightarrow> string \<Rightarrow> string \<Rightarrow> clock \<Rightarrow> rewardRule \<Rightarrow> verification \<Rightarrow> campaign \<Rightarrow> db \<Rightarrow> db \<times> (error + rewardResponse)" where
  "creditReward req_user campaign_id act clk rewardRule v c d =
     (case findParticipant (uid req_user) (participants c) of
        None \<Rightarrow> (d, Inl NotParticipated)
      | Some p \<Rightarrow>
         (if \<not> list_ex (\<lambda>a. actionType a = act \<and> a_proof a = proofHash v) (actions p)
          then (d, Inl ActionNotVerified)
          else if truthy (maxClaims rewardRule) \<and>
                  claimedCount campaign_id (address (r_token rewardRule)) (rewardsEarned req_user)
                    \<ge> the (maxClaims rewardRule)
          then (d, Inl (MaxRewardsClaimed (the (maxClaims rewardRule))))
          else
            (User_update (uid req_user)
               (\<lambda>u. u\<lparr>rewardsEarned := rewardsEarned u @
                      [\<lparr>campaignId = cid c, amount = rewardAmount rewardRule,
                        e_token = \<lparr>address = address (r_token rewardRule),
                                   name = name (r_token rewardRule)\<rparr>,
                        claimedAt = t_write clk\<rparr>]\<rparr>) d,
             Inr \<lparr>rr_campaignId = cid c, rr_campaignTitle = title c, rr_action = act,
                  rr_amount = rewardAmount rewardRule, rr_token = r_token rewardRule,
                  rr_claimedAt = t_write clk\<rparr>)))"

definition claimReward ::
  "user \<Rightarrow> string \<Rightarrow> string \<Rightarrow> string \<Rightarrow> clock \<Rightarrow> db \<Rightarrow> db \<times> (error + rewardResponse)" where
  "claimReward req_user campaign_id act proof clk d =
     (if role req_user \<noteq> ''fan'' then (d, Inl OnlyFansClaim)
      else (case Campaign_findById d campaign_id of
        None \<Rightarrow> (d, Inl CampaignNotFound)
      | Some c \<Rightarrow>
         (if status c \<noteq> ''active'' then (d, Inl CampaignNotActive)
          else if t_now clk < startDate c \<or> t_now clk > endDate c then (d, Inl OutsideDateWindow)
          else (case find (\<lambda>rule. action rule = act) (rewardRules c) of
            None \<Rightarrow> (d, Inl (ActionNotRewarded act))
          | Some rewardRule \<Rightarrow>
             (case verifyAction act (contentUrl c) proof (walletAddress req_user) clk of
                Inl e \<Rightarrow> (d, Inl e)
              | Inr v \<Rightarrow>
                 (if \<not> verified v then (d, Inl VerificationFailed)
                  else creditReward req_user campaign_id act clk rewardRule v c d))))))"

section \<open>Notions used to state the properties\<close>

text \<open>The action history of a user on a campaign: the actions of the participant entry
  the handlers find for the user (the first with this user id), empty if there is none.\<close>

definition participantActions :: "string \<Rightarrow> campaign \<Rightarrow> actionRecord list" where
  "participantActions u c =
     (case findParticipant u (participants c) of None \<Rightarrow> [] | Some p \<Rightarrow> actions p)"

text \<open>What the checks at the head of both handlers establish before anything is
  counted or written: a fan, an active campaign inside its date window, the reward
  rule \<open>find\<close> selects for the action, and the verification result.\<close>

definition admitted ::
  "user \<Rightarrow> string \<Rightarrow> string \<Rightarrow> string \<Rightarrow> clock \<Rightarrow> db \<Rightarrow> campaign \<Rightarrow> rewardRule \<Rightarrow> verification \<Rightarrow> bool" where
  "admitted u i act proof clk d c rule v =
     (role u = ''fan'' \<and> Campaign_findById d i = Some c \<and> status c = ''active'' \<and>
      startDate c \<le> t_now clk \<and> t_now clk \<le> endDate c \<and>
      find (\<lambda>rule. action rule = act) (rewardRules c) = Some rule \<and>
      verifyAction act (contentUrl c) proof (walletAddress u) clk = Inr v)"

text \<open>The addresses a campaign request names: the budget token's, then the reward
  rules' in order.\<close>

definition requestTokens :: "createBody \<Rightarrow> string list" where
  "requestTokens body =
     address (b_token (req_budget body)) # map (\<lambda>rule. address (r_token rule)) (req_rewardRules body)"

text \<open>The page and the limit a listing request asks for, with the handler's defaults.\<close>

definition pageOf :: "listQuery \<Rightarrow> nat" where
  "pageOf q = (case q_page q of None \<Rightarrow> 1 | Some p \<Rightarrow> p)"

definition limitOf :: "listQuery \<Rightarrow> nat" where
  "limitOf q = (case q_limit q of None \<Rightarrow> 10 | Some l \<Rightarrow> l)"

text \<open>The stored campaigns whose status is active, in stored order.\<close>

definition activeCampaigns :: "db \<Rightarrow> campaign list" where
  "activeCampaigns d = filter (\<lambda>c. status c = ''active'') (campaigns d)"

text \<open>The campaigns of a listing answer; an error answer carries none.\<close>

definition pageItems :: "error + listResult \<Rightarrow> campaign list" where
  "pageItems x = (case x of Inl _ \<Rightarrow> [] | Inr r \<Rightarrow> res_campaigns r)"

text \<open>A listing request that filters on the status active only.\<close>

definition activeOnly :: "listQuery \<Rightarrow> bool" where
  "activeOnly q = (q_status q = Some ''active'' \<and> q_creator q = None \<and>
                   q_startDate q = None \<and> q_endDate q = None)"

section \<open>Sample documents\<close>

text \<open>The documents of the repository's integration tests (tests/integration), used to
  evaluate the handlers on concrete requests.\<close>

definition usdc :: token where
  "usdc = \<lparr>address = ''0x1234567890123456789012345678901234567890'', name = ''USDC''\<rparr>"

definition sampleCid :: string where
  "sampleCid = ''65a0000000000000000000c1''"

definition sampleCreator :: user where
  "sampleCreator =
     \<lparr>uid = ''65a000000000000000000001'',
      walletAddress = ''0x1234567890123456789012345678901234567890'',
      username = ''testcreator'', role = ''creator'',
      campaignsCreated = [''65a0000000000000000000c1''], campaignsParticipated = [],
      rewardsEarned = []\<rparr>"

definition sampleFan :: user where
  "sampleFan =
     \<lparr>uid = ''65a000000000000000000002'',
      walletAddress = ''0x742d35cc6634c0532925a3b8d4c0532925a3b8d4'',
      username = ''testfan'', role = ''fan'',
      campaignsCreated = [], campaignsParticipated = [], rewardsEarned = []\<rparr>"

definition streamRule :: "nat option \<Rightarrow> rewardRule" where
  "streamRule m = \<lparr>action = ''stream'', rewardAmount = 1 / 2, r_token = usdc, maxClaims = m\<rparr>"

definition shareRule :: "nat option \<Rightarrow> rewardRule" where
  "shareRule m = \<lparr>action = ''share'', rewardAmount = 1 / 4, r_token = usdc, maxClaims = m\<rparr>"

text \<open>An active campaign running from 2025-01-01 to 2025-12-31 (UTC, in milliseconds).\<close>

definition sampleCampaign :: "rewardRule list \<Rightarrow> campaign" where
  "sampleCampaign rules =
     \<lparr>cid = ''65a0000000000000000000c1'', creatorId = ''65a000000000000000000001'',
      title = ''Test Campaign'', description = ''Test description'',
      c_budget = \<lparr>b_amount = 1000, b_token = usdc\<rparr>,
      rewardRules = rules, status = ''active'',
      startDate = 1735689600000, endDate = 1767139200000,
      contentUrl = ''https://open.spotify.com/track/example'', totalTVL = 0,
      participants = [], createdAt = 1735000000000\<rparr>"

text \<open>The store before the fan has taken part: the campaign has no participant.\<close>

definition sampleDb :: "rewardRule list \<Rightarrow> db" where
  "sampleDb rules = \<lparr>campaigns = [sampleCampaign rules], users = [sampleCreator, sampleFan]\<rparr>"

text \<open>The store when the fan has a participant entry on the campaign, with the action
  history \<open>acts\<close>, and the reward ledger \<open>rewards\<close>.\<close>

definition sampleState :: "rewardRule list \<Rightarrow> actionRecord list \<Rightarrow> rewardEntry list \<Rightarrow> db" where
  "sampleState rules acts rewards =
     \<lparr>campaigns =
        [(sampleCampaign rules)
           \<lparr>participants := [\<lparr>userId = ''65a000000000000000000002'', actions = acts\<rparr>]\<rparr>],
      users =
        [sampleCreator,
         sampleFan\<lparr>campaignsParticipated := [''65a0000000000000000000c1''],
                   rewardsEarned := rewards\<rparr>]\<rparr>"

text \<open>The sample fan's document as the store holds it: what \<open>req.user\<close> is once the
  \<open>authenticate\<close> middleware has loaded the user for the request.\<close>

definition storedFan :: "db \<Rightarrow> user" where
  "storedFan d = the (User_findById d ''65a000000000000000000002'')"

text \<open>The clock readings of a request that arrives at \<open>t\<close> and takes two milliseconds.\<close>

definition clockAt :: "nat \<Rightarrow> clock" where
  "clockAt t = \<lparr>t_now = t, t_stamp = t + 1, t_hash = t + 1, t_write = t + 2\<rparr>"

text \<open>The answer to a stream recorded on the sample campaign with clock \<open>clockAt t\<close>,
  and the action record and ledger entry such requests write.\<close>

definition streamAnswer :: "nat \<Rightarrow> string \<Rightarrow> participation" where
  "streamAnswer t h =
     \<lparr>pr_verification =
        \<lparr>verified = True, platform = ''spotify'', v_action = ''stream'', timestamp = t + 1,
         proofHash = h, v_error = None\<rparr>,
      rewardEligible = True, pr_rewardAmount = 1 / 2, pr_rewardToken = usdc\<rparr>"

definition streamRecord :: "nat \<Rightarrow> string \<Rightarrow> actionRecord" where
  "streamRecord t h = \<lparr>actionType = ''stream'', verifiedAt = t + 2, a_proof = h\<rparr>"

definition streamReward :: "nat \<Rightarrow> rewardEntry" where
  "streamReward t =
     \<lparr>campaignId = ''65a0000000000000000000c1'', amount = 1 / 2, e_token = usdc, claimedAt = t + 2\<rparr>"

text \<open>A campaign with two rules paid in the same token: stream, at most five claims, and
  share, at most one.\<close>

definition sharedTokenRules :: "rewardRule list" where
  "sharedTokenRules = [streamRule (Some 5), shareRule (Some 1)]"

text \<open>A campaign request with the dates of the sample campaign, for a given budget
  token and given reward rules.\<close>

definition sampleBody :: "token \<Rightarrow> rewardRule list \<Rightarrow> createBody" where
  "sampleBody tok rules =
     \<lparr>req_title = ''Test Campaign'', req_description = ''Test description'',
      req_budget = \<lparr>b_amount = 1000, b_token = tok\<rparr>, req_rewardRules = rules,
      req_startDate = 1735689600000, req_endDate = 1767139200000,
      req_contentUrl = ''https://open.spotify.com/track/example''\<rparr>"

text \<open>Three stored campaigns, created in the order draft, active, active.\<close>

definition listedDb :: db where
  "listedDb =
     \<lparr>campaigns =
        [(sampleCampaign [])\<lparr>cid := ''65a0000000000000000000c1'', status := ''draft'', createdAt := 100\<rparr>,
         (sampleCampaign [])\<lparr>cid := ''65a0000000000000000000c2'', createdAt := 200\<rparr>,
         (sampleCampaign [])\<lparr>cid := ''65a0000000000000000000c3'', createdAt := 300\<rparr>],
      users = [sampleCreator, sampleFan]\<rparr>"

definition activeQuery :: "nat \<Rightarrow> nat \<Rightarrow> listQuery" where
  "activeQuery p l =
     \<lparr>q_status = Some ''active'', q_creator = None, q_startDate = None, q_endDate = None,
      q_page = Some p, q_limit = Some l\<rparr>"

section \<open>Properties\<close>

subsection \<open>The proof hash\<close>

lemmas hash_eval = generateProofHash_def decimal.simps digit_char_def b64_char_def b64_alphabet_def

lemma base64_append:
  "length xs = 3 * k \<Longrightarrow> base64 (xs @ ys) = base64 xs @ base64 ys \<and> length (base64 xs) = 4 * k"
proof (induction k arbitrary: xs)
  case 0
  then show ?case by simp
next
  case (Suc k)
  then obtain a b c rest where xs: "xs = a # b # c # rest" and r: "length rest = 3 * k"
    by (cases xs; cases "tl xs"; cases "tl (tl xs)") auto
  from Suc.IH [OF r] show ?case by (simp add: xs Let_def)
qed

text \<open>
  Thirty-two base64 characters encode twenty-four bytes, so the hash is the encoding of
  the first 24 bytes of \<open>proof + Date.now()\<close>: a proof of 24 bytes or more fills them
  alone and the clock is cut off; a shorter proof leaves room for the leading digits
  of the clock reading.
\<close>

lemma generateProofHash_long:
  assumes "24 \<le> length p"
  shows "generateProofHash p t = base64 (take 24 p)"
proof -
  have e: "p @ decimal t = take 24 p @ (drop 24 p @ decimal t)" by simp
  have l: "length (take 24 p) = 3 * 8" using assms by simp
  from base64_append [OF l, of "drop 24 p @ decimal t"]
  have "base64 (take 24 p @ (drop 24 p @ decimal t)) = base64 (take 24 p) @ base64 (drop 24 p @ decimal t)"
    and "length (base64 (take 24 p)) = 32" by auto
  then show ?thesis unfolding generateProofHash_def by (subst e) simp
qed

text \<open>
  C2 (the fingerprint is a pure function of the proof: two computations for the same
  proof give equal strings). The code does not have this property. For the 15-byte
  proof \<open>test-proof-data\<close> of the unit test, two calls one minute apart return
  different hashes, because nine digits of \<open>Date.now()\<close> are inside the 24 bytes that
  are encoded: this theorem evaluates \<open>generateProofHash\<close> at both clock readings.
\<close>

theorem generateProofHash_clock_dependent:
  "generateProofHash ''test-proof-data'' 1700000000000 = ''dGVzdC1wcm9vZi1kYXRhMTcwMDAwMDAw'' \<and>
   generateProofHash ''test-proof-data'' 1700000060000 = ''dGVzdC1wcm9vZi1kYXRhMTcwMDAwMDA2'' \<and>
   generateProofHash ''test-proof-data'' 1700000000000 \<noteq>
     generateProofHash ''test-proof-data'' 1700000060000"
  by (simp add: hash_eval)

subsection \<open>verifyAction\<close>

lemmas verify_defs = verifyAction_def verifyStream_def verifyShare_def verifyFollow_def
  verifyLike_def verifyComment_def verifySpotifyStream_def verifyYouTubeStream_def
  verifyTwitterShare_def verifyTwitterFollow_def verifySpotifyFollow_def verifyYouTubeLike_def
  verifyYouTubeComment_def mockVerification_def platformVerified_def caught_def

lemma verifyAction_verified:
  "verifyAction act url proof w clk = Inr v \<Longrightarrow> verified v"
  by (auto simp: verify_defs Let_def split: if_splits)

lemma verifyAction_Inl:
  "verifyAction act url proof w clk = Inl e \<Longrightarrow> e = UnsupportedAction act \<and> act \<notin> set recognizedActions"
  by (auto simp: verifyAction_def recognizedActions_def split: if_splits)

lemma verifyAction_Inr:
  "act \<in> set recognizedActions \<Longrightarrow> \<exists>v. verifyAction act url proof w clk = Inr v"
  by (auto simp: verifyAction_def recognizedActions_def)

lemma recordAction_not_VerificationFailed:
  "snd (recordAction u act clk rule v c d) \<noteq> Inl VerificationFailed"
  by (simp add: recordAction_def split: prod.splits)

lemma creditReward_not_VerificationFailed:
  "snd (creditReward u i act clk rule v c d) \<noteq> Inl VerificationFailed"
  by (simp add: creditReward_def split: option.splits)

lemma participate_not_VerificationFailed:
  "snd (participateInCampaign u i act proof clk d) \<noteq> Inl VerificationFailed"
  by (auto simp: participateInCampaign_def recordAction_not_VerificationFailed
      split: option.splits sum.splits dest: verifyAction_verified verifyAction_Inl)

lemma claim_not_VerificationFailed:
  "snd (claimReward u i act proof clk d) \<noteq> Inl VerificationFailed"
  by (auto simp: claimReward_def creditReward_not_VerificationFailed
      split: option.splits sum.splits dest: verifyAction_verified verifyAction_Inl)

text \<open>
  C7. For each of the five recognized action kinds, every content URL and every proof,
  \<open>verifyAction\<close> returns a result with \<open>verified = true\<close>; it throws exactly when the
  action kind is not one of the five, and what it throws is the unsupported-action
  error; hence neither \<open>participateInCampaign\<close> nor \<open>claimReward\<close> ever answers with
  the verification-failed error.
\<close>

theorem verifyAction_always_verified:
  "(act \<in> set recognizedActions \<longrightarrow>
      (\<exists>v. verifyAction act url proof w clk = Inr v \<and> verified v)) \<and>
   (verifyAction act url proof w clk = Inl (UnsupportedAction act) \<longleftrightarrow> act \<notin> set recognizedActions) \<and>
   (\<forall>e. verifyAction act url proof w clk = Inl e \<longrightarrow> e = UnsupportedAction act) \<and>
   snd (participateInCampaign u i act proof clk d) \<noteq> Inl VerificationFailed \<and>
   snd (claimReward u i act proof clk d) \<noteq> Inl VerificationFailed"
proof (intro conjI)
  show "act \<in> set recognizedActions \<longrightarrow> (\<exists>v. verifyAction act url proof w clk = Inr v \<and> verified v)"
    using verifyAction_Inr verifyAction_verified by blast
  show "(verifyAction act url proof w clk = Inl (UnsupportedAction act)) = (act \<notin> set recognizedActions)"
    by (auto simp: verifyAction_def recognizedActions_def)
  show "\<forall>e. verifyAction act url proof w clk = Inl e \<longrightarrow> e = UnsupportedAction act"
    using verifyAction_Inl by blast
  show "snd (participateInCampaign u i act proof clk d) \<noteq> Inl VerificationFailed"
    by (rule participate_not_VerificationFailed)
  show "snd (claimReward u i act proof clk d) \<noteq> Inl VerificationFailed"
    by (rule claim_not_VerificationFailed)
qed

theorem verifyAction_always_verified_witness:
  "''like'' \<in> set recognizedActions \<and>
   (\<exists>v. verifyAction ''like'' ''https://youtu.be/abc'' ''p'' ''0x00'' (clockAt 5) = Inr v \<and> verified v) \<and>
   ''dance'' \<notin> set recognizedActions \<and>
   verifyAction ''dance'' ''https://youtu.be/abc'' ''p'' ''0x00'' (clockAt 5)
     = Inl (UnsupportedAction ''dance'')"
proof -
  have m: "''like'' \<in> set recognizedActions" and n: "''dance'' \<notin> set recognizedActions"
    by (simp_all add: recognizedActions_def)
  from m n show ?thesis
    using verifyAction_always_verified [of "''like''" "''https://youtu.be/abc''" "''p''" "''0x00''"
          "clockAt 5" sampleFan "[]" "sampleDb []"]
        verifyAction_always_verified [of "''dance''" "''https://youtu.be/abc''" "''p''" "''0x00''"
          "clockAt 5" sampleFan "[]" "sampleDb []"]
    by blast
qed

subsection \<open>Store lemmas\<close>

lemma find_cid: "find (\<lambda>c. cid c = k) cs = Some c \<Longrightarrow> cid c = k"
  by (induction cs) (auto split: if_splits)

lemma findById_cid: "Campaign_findById d i = Some c \<Longrightarrow> cid c = toLowerCase i"
  unfolding Campaign_findById_def by (rule find_cid)

lemma truthy_zero [simp]: "(truthy m \<and> the m = 0) = False"
  by (simp add: truthy_def split: option.splits)

lemma find_map_update:
  "find (\<lambda>x. uid x = j) us = Some u \<Longrightarrow> uid (f u) = j \<Longrightarrow>
   find (\<lambda>x. uid x = j) (map (\<lambda>x. if uid x = j then f x else x) us) = Some (f u)"
  by (induction us) (auto split: if_splits)

lemma User_findById_update:
  "User_findById d j = Some u \<Longrightarrow> uid (f u) = j \<Longrightarrow>
   User_findById (User_update j f d) j = Some (f u)"
  by (simp add: User_findById_def User_update_def find_map_update)

lemma find_uid: "find (\<lambda>x. uid x = j) us = Some u \<Longrightarrow> uid u = j"
  by (induction us) (auto split: if_splits)

lemma User_findById_uid: "User_findById d j = Some u \<Longrightarrow> uid u = j"
  unfolding User_findById_def by (rule find_uid)

lemma token_eta: "\<lparr>address = address t, name = name t\<rparr> = (t :: token)"
  by (cases t) simp

lemma claimedCount_append:
  "claimedCount i a (rs @ [\<lparr>campaignId = j, amount = x, e_token = t, claimedAt = y\<rparr>]) =
     (if j = i \<and> address t = a then claimedCount i a rs + 1 else claimedCount i a rs)"
  by (simp add: claimedCount_def)

subsection \<open>The handlers after their checks\<close>

lemma participate_admitted:
  "admitted u i act proof clk d c rule v \<Longrightarrow>
   participateInCampaign u i act proof clk d = recordAction u act clk rule v c d"
  by (auto simp: admitted_def participateInCampaign_def dest: verifyAction_verified)

lemma claim_admitted:
  "admitted u i act proof clk d c rule v \<Longrightarrow>
   claimReward u i act proof clk d = creditReward u i act clk rule v c d"
  by (auto simp: admitted_def claimReward_def dest: verifyAction_verified)

text \<open>\<open>recordAction\<close> by cases on the fan's entry: a stored entry receives the record;
  a fan without an entry gets an entry with no actions, and the record is lost.\<close>

lemma recordAction_stored:
  assumes "findParticipant (uid u) (participants c) = Some p"
  shows "recordAction u act clk rule v c d =
     (if truthy (maxClaims rule) \<and> the (maxClaims rule) \<le> actionCount act p
      then (d, Inl (MaxClaimsReached (the (maxClaims rule)) act))
      else (Campaign_save
              (c\<lparr>participants :=
                   pushAction (uid u)
                     \<lparr>actionType = act, verifiedAt = t_write clk, a_proof = proofHash v\<rparr>
                     (participants c)\<rparr>) d,
            Inr \<lparr>pr_verification = v, rewardEligible = True, pr_rewardAmount = rewardAmount rule,
                 pr_rewardToken = r_token rule\<rparr>))"
  using assms by (simp add: recordAction_def locateParticipant_def)

lemma recordAction_fresh:
  assumes "findParticipant (uid u) (participants c) = None"
  shows "recordAction u act clk rule v c d =
     (Campaign_save (c\<lparr>participants := participants c @ [\<lparr>userId = uid u, actions = []\<rparr>]\<rparr>)
        (User_update (uid u)
           (\<lambda>x. x\<lparr>campaignsParticipated := addToSet (cid c) (campaignsParticipated x)\<rparr>) d),
      Inr \<lparr>pr_verification = v, rewardEligible = True, pr_rewardAmount = rewardAmount rule,
           pr_rewardToken = r_token rule\<rparr>)"
  using assms by (simp add: recordAction_def locateParticipant_def actionCount_def)

lemma creditReward_failure_keeps_store:
  "creditReward u i act clk rule v c d = (d', Inl e) \<Longrightarrow> d' = d"
  by (auto simp: creditReward_def split: option.splits if_splits)

lemma claim_Inr_admitted:
  assumes "claimReward u i act proof clk d = (d', Inr r)"
  shows "\<exists>c rule v. admitted u i act proof clk d c rule v"
proof -
  note D = claimReward_def
  have fan: "role u = ''fan''"
    using assms by (cases "role u = ''fan''") (simp_all add: D)
  obtain c where c: "Campaign_findById d i = Some c"
    using assms fan by (cases "Campaign_findById d i") (simp_all add: D)
  have act: "status c = ''active''"
    using assms fan c by (cases "status c = ''active''") (simp_all add: D)
  have win: "\<not> (t_now clk < startDate c \<or> t_now clk > endDate c)"
    using assms fan c act by (cases "t_now clk < startDate c \<or> t_now clk > endDate c") (simp_all add: D)
  obtain rule where rule: "find (\<lambda>rule. action rule = act) (rewardRules c) = Some rule"
    using assms fan c act win
    by (cases "find (\<lambda>rule. action rule = act) (rewardRules c)") (simp_all add: D)
  obtain v where v: "verifyAction act (contentUrl c) proof (walletAddress u) clk = Inr v"
    using assms fan c act win rule
    by (cases "verifyAction act (contentUrl c) proof (walletAddress u) clk") (simp_all add: D)
  from fan c act win rule v show ?thesis
    by (auto simp: admitted_def)
qed

lemma claim_failure_keeps_store:
  assumes "claimReward u i act proof clk d = (d', Inl e)"
  shows "d' = d"
proof (cases "\<exists>c rule v. admitted u i act proof clk d c rule v")
  case True
  then obtain c rule v where "admitted u i act proof clk d c rule v" by blast
  from claim_admitted [OF this] assms
  have "creditReward u i act clk rule v c d = (d', Inl e)" by simp
  then show ?thesis by (rule creditReward_failure_keeps_store)
next
  case False
  note D = claimReward_def
  show ?thesis
  proof (cases "role u = ''fan''")
    case no: False
    with assms show ?thesis by (simp add: D)
  next
    case fan: True
    show ?thesis
    proof (cases "Campaign_findById d i")
      case None
      with assms fan show ?thesis by (simp add: D)
    next
      case (Some c)
      show ?thesis
      proof (cases "status c = ''active'' \<and> \<not> (t_now clk < startDate c \<or> t_now clk > endDate c)")
        case out: False
        with assms fan Some show ?thesis by (auto simp: D split: if_splits)
      next
        case ok: True
        show ?thesis
        proof (cases "find (\<lambda>rule. action rule = act) (rewardRules c)")
          case None
          with assms fan Some ok show ?thesis by (simp add: D)
        next
          case rule: (Some rule)
          show ?thesis
          proof (cases "verifyAction act (contentUrl c) proof (walletAddress u) clk")
            case (Inl x)
            with assms fan Some ok rule show ?thesis by (simp add: D)
          next
            case (Inr v)
            with fan Some ok rule have "admitted u i act proof clk d c rule v"
              by (simp add: admitted_def)
            with False show ?thesis by blast
          qed
        qed
      qed
    qed
  qed
qed

lemma creditReward_unfold:
  "creditReward u i act clk rule v c d =
     (if findParticipant (uid u) (participants c) = None then (d, Inl NotParticipated)
      else if \<not> list_ex (\<lambda>a. actionType a = act \<and> a_proof a = proofHash v) (participantActions (uid u) c)
      then (d, Inl ActionNotVerified)
      else if truthy (maxClaims rule) \<and>
              the (maxClaims rule) \<le> claimedCount i (address (r_token rule)) (rewardsEarned u)
      then (d, Inl (MaxRewardsClaimed (the (maxClaims rule))))
      else (User_update (uid u)
              (\<lambda>x. x\<lparr>rewardsEarned := rewardsEarned x @
                     [\<lparr>campaignId = cid c, amount = rewardAmount rule, e_token = r_token rule,
                       claimedAt = t_write clk\<rparr>]\<rparr>) d,
            Inr \<lparr>rr_campaignId = cid c, rr_campaignTitle = title c, rr_action = act,
                 rr_amount = rewardAmount rule, rr_token = r_token rule,
                 rr_claimedAt = t_write clk\<rparr>))"
  by (cases "findParticipant (uid u) (participants c)")
     (simp_all add: creditReward_def participantActions_def token_eta)

text \<open>One successful claim, seen from the store.\<close>

lemma claim_success:
  assumes "claimReward u i act proof clk d = (d', Inr r)"
  shows "\<exists>c rule v.
      admitted u i act proof clk d c rule v \<and>
      list_ex (\<lambda>a. actionType a = act \<and> a_proof a = proofHash v) (participantActions (uid u) c) \<and>
      \<not> (truthy (maxClaims rule) \<and>
           the (maxClaims rule) \<le> claimedCount i (address (r_token rule)) (rewardsEarned u)) \<and>
      d' = User_update (uid u)
              (\<lambda>x. x\<lparr>rewardsEarned := rewardsEarned x @
                     [\<lparr>campaignId = cid c, amount = rewardAmount rule, e_token = r_token rule,
                       claimedAt = t_write clk\<rparr>]\<rparr>) d \<and>
      r = \<lparr>rr_campaignId = cid c, rr_campaignTitle = title c, rr_action = act,
           rr_amount = rewardAmount rule, rr_token = r_token rule, rr_claimedAt = t_write clk\<rparr>"
proof -
  from claim_Inr_admitted [OF assms] obtain c rule v
    where a: "admitted u i act proof clk d c rule v" by blast
  from assms claim_admitted [OF a]
  have e: "creditReward u i act clk rule v c d = (d', Inr r)" by simp
  have p: "findParticipant (uid u) (participants c) \<noteq> None"
    using e by (cases "findParticipant (uid u) (participants c) = None")
      (simp_all add: creditReward_unfold)
  have m: "list_ex (\<lambda>a. actionType a = act \<and> a_proof a = proofHash v) (participantActions (uid u) c)"
    using e p
    by (cases "list_ex (\<lambda>a. actionType a = act \<and> a_proof a = proofHash v) (participantActions (uid u) c)")
      (simp_all add: creditReward_unfold)
  have cap: "\<not> (truthy (maxClaims rule) \<and>
           the (maxClaims rule) \<le> claimedCount i (address (r_token rule)) (rewardsEarned u))"
    using e p m
    by (cases "truthy (maxClaims rule) \<and>
           the (maxClaims rule) \<le> claimedCount i (address (r_token rule)) (rewardsEarned u)")
      (simp_all add: creditReward_unfold)
  from e p m cap have
    "d' = User_update (uid u)
              (\<lambda>x. x\<lparr>rewardsEarned := rewardsEarned x @
                     [\<lparr>campaignId = cid c, amount = rewardAmount rule, e_token = r_token rule,
                       claimedAt = t_write clk\<rparr>]\<rparr>) d"
    and "r = \<lparr>rr_campaignId = cid c, rr_campaignTitle = title c, rr_action = act,
           rr_amount = rewardAmount rule, rr_token = r_token rule, rr_claimedAt = t_write clk\<rparr>"
    by (simp_all add: creditReward_unfold)
  with a m cap show ?thesis by blast
qed

subsection \<open>The handlers on the sample store\<close>

lemmas b64_eval = base64.simps b64_char_def b64_alphabet_def

lemmas sample_side = hash_eval base64.simps streamRule_def shareRule_def sharedTokenRules_def
  truthy_def claimedCount_def usdc_def sampleCid_def streamRecord_def streamReward_def
  streamAnswer_def

lemma sampleCid_lower: "toLowerCase sampleCid = ''65a0000000000000000000c1''"
  by (simp add: sampleCid_def toLowerCase_def lower_char_def)

lemma storedFan_sampleDb: "storedFan (sampleDb rules) = sampleFan"
  by (simp add: storedFan_def sampleDb_def User_findById_def sampleCreator_def sampleFan_def)

lemma storedFan_sampleState:
  "storedFan (sampleState rules acts rw) =
     sampleFan\<lparr>campaignsParticipated := [''65a0000000000000000000c1''], rewardsEarned := rw\<rparr>"
  by (simp add: storedFan_def sampleState_def User_findById_def sampleCreator_def sampleFan_def)

lemma sample_verify:
  "verifyAction ''stream'' ''https://open.spotify.com/track/example'' p w (clockAt t) =
     Inr \<lparr>verified = True, platform = ''spotify'', v_action = ''stream'', timestamp = t + 1,
          proofHash = generateProofHash p (t + 1), v_error = None\<rparr>"
  by (simp add: verify_defs getPlatformFromUrl_def clockAt_def)

lemma fresh_admitted:
  assumes "find (\<lambda>rule. action rule = ''stream'') rules = Some rule"
    and "1735689600000 \<le> t" and "t \<le> 1767139200000"
  shows "admitted sampleFan sampleCid ''stream'' p (clockAt t) (sampleDb rules)
           (sampleCampaign rules) rule
           \<lparr>verified = True, platform = ''spotify'', v_action = ''stream'', timestamp = t + 1,
            proofHash = generateProofHash p (t + 1), v_error = None\<rparr>"
  using assms
  by (simp add: admitted_def Campaign_findById_def sampleCid_lower sampleDb_def)
     (simp add: sampleCampaign_def sampleFan_def sample_verify, simp add: clockAt_def)

lemma sample_admitted:
  assumes "find (\<lambda>rule. action rule = ''stream'') rules = Some rule"
    and "1735689600000 \<le> t" and "t \<le> 1767139200000"
  shows "admitted (storedFan (sampleState rules acts rw)) sampleCid ''stream'' p (clockAt t)
           (sampleState rules acts rw)
           ((sampleCampaign rules)
              \<lparr>participants := [\<lparr>userId = ''65a000000000000000000002'', actions = acts\<rparr>]\<rparr>)
           rule
           \<lparr>verified = True, platform = ''spotify'', v_action = ''stream'', timestamp = t + 1,
            proofHash = generateProofHash p (t + 1), v_error = None\<rparr>"
  unfolding storedFan_sampleState using assms
  by (simp add: admitted_def Campaign_findById_def sampleCid_lower sampleState_def)
     (simp add: sampleCampaign_def sampleFan_def sample_verify, simp add: clockAt_def)

text \<open>The fan's first stream on the sample campaign: the answer is a success, and the
  store gains an entry for the fan that holds no action.\<close>

lemma fresh_stream:
  assumes "find (\<lambda>rule. action rule = ''stream'') rules = Some rule"
    and "1735689600000 \<le> t" and "t \<le> 1767139200000"
  shows "participateInCampaign sampleFan sampleCid ''stream'' p (clockAt t) (sampleDb rules)
         = (sampleState rules [] [],
            Inr \<lparr>pr_verification =
                   \<lparr>verified = True, platform = ''spotify'', v_action = ''stream'',
                    timestamp = t + 1, proofHash = generateProofHash p (t + 1), v_error = None\<rparr>,
                 rewardEligible = True, pr_rewardAmount = rewardAmount rule,
                 pr_rewardToken = r_token rule\<rparr>)"
proof -
  have none: "findParticipant (uid sampleFan) (participants (sampleCampaign rules)) = None"
    by (simp add: findParticipant_def sampleCampaign_def)
  show ?thesis
    unfolding participate_admitted [OF fresh_admitted [OF assms]] recordAction_fresh [OF none]
    by (simp add: sampleState_def sampleDb_def sampleCampaign_def sampleFan_def sampleCreator_def
          Campaign_save_def User_update_def addToSet_def)
qed

text \<open>A stream of the fan who has an entry: the record is appended unless the cap is
  reached.\<close>

lemma sample_stream:
  assumes "find (\<lambda>rule. action rule = ''stream'') rules = Some rule"
    and "1735689600000 \<le> t" and "t \<le> 1767139200000"
  shows "participateInCampaign (storedFan (sampleState rules acts rw)) sampleCid ''stream'' p
            (clockAt t) (sampleState rules acts rw)
         = (if truthy (maxClaims rule) \<and>
               the (maxClaims rule) \<le> length (filter (\<lambda>a. actionType a = ''stream'') acts)
            then (sampleState rules acts rw, Inl (MaxClaimsReached (the (maxClaims rule)) ''stream''))
            else (sampleState rules
                    (acts @ [\<lparr>actionType = ''stream'', verifiedAt = t + 2,
                              a_proof = generateProofHash p (t + 1)\<rparr>]) rw,
                  Inr \<lparr>pr_verification =
                         \<lparr>verified = True, platform = ''spotify'', v_action = ''stream'',
                          timestamp = t + 1, proofHash = generateProofHash p (t + 1),
                          v_error = None\<rparr>,
                       rewardEligible = True, pr_rewardAmount = rewardAmount rule,
                       pr_rewardToken = r_token rule\<rparr>))"
proof -
  have some: "findParticipant (uid (storedFan (sampleState rules acts rw)))
                (participants ((sampleCampaign rules)
                   \<lparr>participants := [\<lparr>userId = ''65a000000000000000000002'', actions = acts\<rparr>]\<rparr>))
              = Some \<lparr>userId = ''65a000000000000000000002'', actions = acts\<rparr>"
    by (simp add: findParticipant_def storedFan_sampleState sampleFan_def)
  show ?thesis
    unfolding participate_admitted [OF sample_admitted [OF assms]] recordAction_stored [OF some]
    by (simp add: actionCount_def storedFan_sampleState)
       (simp add: sampleState_def sampleCampaign_def sampleFan_def clockAt_def Campaign_save_def)
qed

lemma sample_claim:
  assumes "find (\<lambda>rule. action rule = ''stream'') rules = Some rule"
    and "1735689600000 \<le> t" and "t \<le> 1767139200000"
  shows "claimReward (storedFan (sampleState rules acts rw)) sampleCid ''stream'' p
            (clockAt t) (sampleState rules acts rw)
         = (if \<not> list_ex (\<lambda>a. actionType a = ''stream'' \<and> a_proof a = generateProofHash p (t + 1)) acts
            then (sampleState rules acts rw, Inl ActionNotVerified)
            else if truthy (maxClaims rule) \<and>
                    the (maxClaims rule) \<le> claimedCount sampleCid (address (r_token rule)) rw
            then (sampleState rules acts rw, Inl (MaxRewardsClaimed (the (maxClaims rule))))
            else (sampleState rules acts
                    (rw @ [\<lparr>campaignId = ''65a0000000000000000000c1'', amount = rewardAmount rule,
                            e_token = r_token rule, claimedAt = t + 2\<rparr>]),
                  Inr \<lparr>rr_campaignId = ''65a0000000000000000000c1'',
                       rr_campaignTitle = ''Test Campaign'',
                       rr_action = ''stream'', rr_amount = rewardAmount rule,
                       rr_token = r_token rule, rr_claimedAt = t + 2\<rparr>))"
  unfolding claim_admitted [OF sample_admitted [OF assms]]
  by (simp add: creditReward_unfold participantActions_def findParticipant_def storedFan_sampleState)
     (simp add: sampleState_def sampleCampaign_def sampleFan_def sampleCreator_def clockAt_def
        User_update_def)

lemma in_window:
  "1735689600000 \<le> (1750000000000 :: nat)" "(1750000000000 :: nat) \<le> 1767139200000"
  "1735689600000 \<le> (1750000100000 :: nat)" "(1750000100000 :: nat) \<le> 1767139200000"
  "1735689600000 \<le> (1750000200000 :: nat)" "(1750000200000 :: nat) \<le> 1767139200000"
  by simp_all

subsection \<open>The participation cap\<close>

text \<open>
  C3 (after \<open>N\<close> successful participations of one fan for an action whose rule has
  \<open>maxClaims = N\<close>, the next one fails with the maximum-claims error). The code misses
  this for a fan who had no participant entry: the first successful request stores the
  new entry without its action, so the count the cap is compared with runs one behind.
  On the test campaign with \<open>maxClaims: 1\<close>: the first request succeeds and stores an
  entry with no action; the second request, which the claim says fails, succeeds and
  stores its record; only the third is refused.
\<close>

theorem maxClaims_cap_one_call_late:
  "participateInCampaign sampleFan sampleCid ''stream'' ''spotify_stream_proof_12345''
       (clockAt 1750000000000) (sampleDb [streamRule (Some 1)])
     = (sampleState [streamRule (Some 1)] [] [],
        Inr (streamAnswer 1750000000000 ''c3BvdGlmeV9zdHJlYW1fcHJvb2ZfMTIz'')) \<and>
   participateInCampaign (storedFan (sampleState [streamRule (Some 1)] [] [])) sampleCid ''stream''
       ''spotify_stream_proof_67890'' (clockAt 1750000100000)
       (sampleState [streamRule (Some 1)] [] [])
     = (sampleState [streamRule (Some 1)]
          [streamRecord 1750000100000 ''c3BvdGlmeV9zdHJlYW1fcHJvb2ZfNjc4''] [],
        Inr (streamAnswer 1750000100000 ''c3BvdGlmeV9zdHJlYW1fcHJvb2ZfNjc4'')) \<and>
   participateInCampaign
       (storedFan (sampleState [streamRule (Some 1)]
          [streamRecord 1750000100000 ''c3BvdGlmeV9zdHJlYW1fcHJvb2ZfNjc4''] []))
       sampleCid ''stream'' ''spotify_stream_proof_12345'' (clockAt 1750000200000)
       (sampleState [streamRule (Some 1)]
          [streamRecord 1750000100000 ''c3BvdGlmeV9zdHJlYW1fcHJvb2ZfNjc4''] [])
     = (sampleState [streamRule (Some 1)]
          [streamRecord 1750000100000 ''c3BvdGlmeV9zdHJlYW1fcHJvb2ZfNjc4''] [],
        Inl (MaxClaimsReached 1 ''stream''))"
proof -
  have r: "find (\<lambda>rule. action rule = ''stream'') [streamRule (Some 1)] = Some (streamRule (Some 1))"
    by (simp add: streamRule_def)
  show ?thesis
    unfolding fresh_stream [OF r in_window(1,2)] sample_stream [OF r in_window(3,4)]
      sample_stream [OF r in_window(5,6)]
    by (simp add: sample_side)
qed

text \<open>
  C5 (a rule whose \<open>maxClaims\<close> is 0 denies every participation). The code does the
  opposite: \<open>if (rewardRule.maxClaims)\<close> is false for 0, so the cap check is skipped as
  it is for an absent \<open>maxClaims\<close>. On the test campaign with \<open>maxClaims: 0\<close>, for a fan
  whose participant entry already holds one stream: the request is answered with a
  success and its record is appended. The request of a fan without an entry is
  answered with a success as well.
\<close>

theorem participate_maxClaims_zero:
  "participateInCampaign
       (storedFan (sampleState [streamRule (Some 0)]
          [streamRecord 1750000000000 ''c3BvdGlmeV9zdHJlYW1fcHJvb2ZfMTIz''] []))
       sampleCid ''stream'' ''spotify_stream_proof_67890'' (clockAt 1750000100000)
       (sampleState [streamRule (Some 0)]
          [streamRecord 1750000000000 ''c3BvdGlmeV9zdHJlYW1fcHJvb2ZfMTIz''] [])
     = (sampleState [streamRule (Some 0)]
          [streamRecord 1750000000000 ''c3BvdGlmeV9zdHJlYW1fcHJvb2ZfMTIz'',
           streamRecord 1750000100000 ''c3BvdGlmeV9zdHJlYW1fcHJvb2ZfNjc4''] [],
        Inr (streamAnswer 1750000100000 ''c3BvdGlmeV9zdHJlYW1fcHJvb2ZfNjc4'')) \<and>
   snd (participateInCampaign sampleFan sampleCid ''stream'' ''spotify_stream_proof_12345''
          (clockAt 1750000000000) (sampleDb [streamRule (Some 0)]))
     = Inr (streamAnswer 1750000000000 ''c3BvdGlmeV9zdHJlYW1fcHJvb2ZfMTIz'')"
proof -
  have r: "find (\<lambda>rule. action rule = ''stream'') [streamRule (Some 0)] = Some (streamRule (Some 0))"
    by (simp add: streamRule_def)
  show ?thesis
    unfolding fresh_stream [OF r in_window(1,2)] sample_stream [OF r in_window(3,4)]
    by (simp add: sample_side)
qed

subsection \<open>Participation is additive\<close>

text \<open>
  C8 (two successive successful participations of one fan for one action append two
  action records to the fan's single participant entry). The code misses this for a
  fan who had no participant entry. On the test campaign (\<open>maxClaims: 10\<close>): both
  requests are answered with a success, and afterwards the fan's one entry holds one
  record, that of the second request; the record of the first was pushed onto the
  handler's detached object and never saved.
\<close>

theorem participation_first_record_not_stored:
  "participateInCampaign sampleFan sampleCid ''stream'' ''spotify_stream_proof_12345''
       (clockAt 1750000000000) (sampleDb [streamRule (Some 10)])
     = (sampleState [streamRule (Some 10)] [] [],
        Inr (streamAnswer 1750000000000 ''c3BvdGlmeV9zdHJlYW1fcHJvb2ZfMTIz'')) \<and>
   participateInCampaign (storedFan (sampleState [streamRule (Some 10)] [] [])) sampleCid ''stream''
       ''spotify_stream_proof_12345'' (clockAt 1750000100000)
       (sampleState [streamRule (Some 10)] [] [])
     = (sampleState [streamRule (Some 10)]
          [streamRecord 1750000100000 ''c3BvdGlmeV9zdHJlYW1fcHJvb2ZfMTIz''] [],
        Inr (streamAnswer 1750000100000 ''c3BvdGlmeV9zdHJlYW1fcHJvb2ZfMTIz'')) \<and>
   map participants
       (campaigns (sampleState [streamRule (Some 10)]
          [streamRecord 1750000100000 ''c3BvdGlmeV9zdHJlYW1fcHJvb2ZfMTIz''] []))
     = [[\<lparr>userId = ''65a000000000000000000002'',
          actions = [\<lparr>actionType = ''stream'', verifiedAt = 1750000100002,
                      a_proof = ''c3BvdGlmeV9zdHJlYW1fcHJvb2ZfMTIz''\<rparr>]\<rparr>]]"
proof -
  have r: "find (\<lambda>rule. action rule = ''stream'') [streamRule (Some 10)] = Some (streamRule (Some 10))"
    by (simp add: streamRule_def)
  show ?thesis
    unfolding fresh_stream [OF r in_window(1,2)] sample_stream [OF r in_window(3,4)]
    by (simp add: sample_side) (simp add: sampleState_def sampleCampaign_def)
qed

subsection \<open>Claiming after participating\<close>

text \<open>
  C1 (after a successful participation with a proof, the fan's claim for the same
  action with the same proof succeeds and appends the reward entry). The code misses
  this in two ways. For a fan who had no participant entry, the participation is
  answered with a success but its record is not stored, so the claim finds no action
  and fails. For a fan with an entry and a proof shorter than 24 bytes, the record is
  stored with a fingerprint that contains digits of the clock, and the claim, one
  hundred seconds later, computes another fingerprint and fails. In both runs the
  ledger stays empty.
\<close>

theorem claim_after_participation_fails:
  "participateInCampaign sampleFan sampleCid ''stream'' ''spotify_stream_proof_12345''
       (clockAt 1750000000000) (sampleDb [streamRule (Some 10)])
     = (sampleState [streamRule (Some 10)] [] [],
        Inr (streamAnswer 1750000000000 ''c3BvdGlmeV9zdHJlYW1fcHJvb2ZfMTIz'')) \<and>
   claimReward (storedFan (sampleState [streamRule (Some 10)] [] [])) sampleCid ''stream''
       ''spotify_stream_proof_12345'' (clockAt 1750000100000)
       (sampleState [streamRule (Some 10)] [] [])
     = (sampleState [streamRule (Some 10)] [] [], Inl ActionNotVerified) \<and>
   participateInCampaign (storedFan (sampleState [streamRule (Some 10)] [] [])) sampleCid ''stream''
       ''proof-1'' (clockAt 1750000100000) (sampleState [streamRule (Some 10)] [] [])
     = (sampleState [streamRule (Some 10)]
          [streamRecord 1750000100000 ''cHJvb2YtMTE3NTAwMDAxMDAwMDE=''] [],
        Inr (streamAnswer 1750000100000 ''cHJvb2YtMTE3NTAwMDAxMDAwMDE='')) \<and>
   claimReward
       (storedFan (sampleState [streamRule (Some 10)]
          [streamRecord 1750000100000 ''cHJvb2YtMTE3NTAwMDAxMDAwMDE=''] []))
       sampleCid ''stream'' ''proof-1'' (clockAt 1750000200000)
       (sampleState [streamRule (Some 10)]
          [streamRecord 1750000100000 ''cHJvb2YtMTE3NTAwMDAxMDAwMDE=''] [])
     = (sampleState [streamRule (Some 10)]
          [streamRecord 1750000100000 ''cHJvb2YtMTE3NTAwMDAxMDAwMDE=''] [],
        Inl ActionNotVerified)"
proof -
  have r: "find (\<lambda>rule. action rule = ''stream'') [streamRule (Some 10)] = Some (streamRule (Some 10))"
    by (simp add: streamRule_def)
  show ?thesis
    unfolding fresh_stream [OF r in_window(1,2)] sample_stream [OF r in_window(3,4)]
      sample_claim [OF r in_window(3,4)] sample_claim [OF r in_window(5,6)]
    by (simp add: sample_side)
qed

subsection \<open>The claim cap\<close>

text \<open>
  C4, as the code has it. Take the reward rule the handler selects for the claimed
  action (the first rule of the campaign with this action), let its \<open>maxClaims\<close> be
  \<open>N \<ge> 1\<close>, let the request name the campaign by its id as stored, and let \<open>req.user\<close>
  be the user's stored document. Then: a successful claim found fewer than \<open>N\<close> ledger
  entries for this campaign and the rule's token address and leaves one more, so at
  most \<open>N\<close>; a failed claim leaves the store as it was; and when the count has reached
  \<open>N\<close> the claim fails and changes nothing, with the maximum-rewards error whenever
  the request passes the handler's earlier checks (fan, active campaign in its window,
  verification, a stored action of the kind with the recomputed fingerprint). The
  bound is that of the selected rule only.
\<close>

theorem claim_cap:
  assumes "Campaign_findById d i = Some c" and "cid c = i"
    and "find (\<lambda>rule. action rule = act) (rewardRules c) = Some rule"
    and "maxClaims rule = Some N" and "1 \<le> N"
    and "User_findById d (uid u) = Some u"
  shows "(\<forall>d' r. claimReward u i act proof clk d = (d', Inr r) \<longrightarrow>
            claimedCount i (address (r_token rule)) (rewardsEarned u) < N \<and>
            map_option (\<lambda>x. claimedCount i (address (r_token rule)) (rewardsEarned x))
                (User_findById d' (uid u))
              = Some (claimedCount i (address (r_token rule)) (rewardsEarned u) + 1)) \<and>
         (\<forall>d' e. claimReward u i act proof clk d = (d', Inl e) \<longrightarrow> d' = d) \<and>
         (N \<le> claimedCount i (address (r_token rule)) (rewardsEarned u) \<longrightarrow>
            (\<exists>e. claimReward u i act proof clk d = (d, Inl e)) \<and>
            (\<forall>v. admitted u i act proof clk d c rule v \<and>
                 list_ex (\<lambda>a. actionType a = act \<and> a_proof a = proofHash v)
                   (participantActions (uid u) c) \<longrightarrow>
                 claimReward u i act proof clk d = (d, Inl (MaxRewardsClaimed N))))"
proof -
  let ?n = "claimedCount i (address (r_token rule)) (rewardsEarned u)"
  have tr: "truthy (maxClaims rule)" and the: "the (maxClaims rule) = N"
    using assms(4,5) by (simp_all add: truthy_def)
  have ok: "?n < N \<and>
            map_option (\<lambda>x. claimedCount i (address (r_token rule)) (rewardsEarned x))
                (User_findById d' (uid u)) = Some (?n + 1)"
    if res: "claimReward u i act proof clk d = (d', Inr r)" for d' r
  proof -
    from claim_success [OF res] obtain c' rule' v where
      a: "admitted u i act proof clk d c' rule' v"
      and cap: "\<not> (truthy (maxClaims rule') \<and>
                   the (maxClaims rule') \<le> claimedCount i (address (r_token rule')) (rewardsEarned u))"
      and d': "d' = User_update (uid u)
              (\<lambda>x. x\<lparr>rewardsEarned := rewardsEarned x @
                     [\<lparr>campaignId = cid c', amount = rewardAmount rule', e_token = r_token rule',
                       claimedAt = t_write clk\<rparr>]\<rparr>) d"
      by blast
    from a assms(1) have c': "c' = c" by (simp add: admitted_def)
    with a assms(3) have rule': "rule' = rule" by (simp add: admitted_def)
    from cap tr the rule' have less: "?n < N" by simp
    let ?f = "\<lambda>x. x\<lparr>rewardsEarned := rewardsEarned x @
                     [\<lparr>campaignId = i, amount = rewardAmount rule, e_token = r_token rule,
                       claimedAt = t_write clk\<rparr>]\<rparr>"
    have "User_findById (User_update (uid u) ?f d) (uid u) = Some (?f u)"
      using assms(6) by (rule User_findById_update) simp
    then have "map_option (\<lambda>x. claimedCount i (address (r_token rule)) (rewardsEarned x))
                (User_findById d' (uid u)) = Some (?n + 1)"
      unfolding d' c' rule' assms(2) by (simp add: claimedCount_append)
    with less show ?thesis by simp
  qed
  have keep: "d' = d" if "claimReward u i act proof clk d = (d', Inl e)" for d' e
    using that by (rule claim_failure_keeps_store)
  have at_cap: "(\<exists>e. claimReward u i act proof clk d = (d, Inl e)) \<and>
            (\<forall>v. admitted u i act proof clk d c rule v \<and>
                 list_ex (\<lambda>a. actionType a = act \<and> a_proof a = proofHash v)
                   (participantActions (uid u) c) \<longrightarrow>
                 claimReward u i act proof clk d = (d, Inl (MaxRewardsClaimed N)))"
    if full: "N \<le> ?n"
  proof
    obtain d' x where res: "claimReward u i act proof clk d = (d', x)"
      by (cases "claimReward u i act proof clk d") auto
    show "\<exists>e. claimReward u i act proof clk d = (d, Inl e)"
    proof (cases x)
      case (Inl e)
      with res keep [of d' e] show ?thesis by auto
    next
      case (Inr r)
      with res ok [of d' r] full show ?thesis by simp
    qed
    show "\<forall>v. admitted u i act proof clk d c rule v \<and>
                 list_ex (\<lambda>a. actionType a = act \<and> a_proof a = proofHash v)
                   (participantActions (uid u) c) \<longrightarrow>
                 claimReward u i act proof clk d = (d, Inl (MaxRewardsClaimed N))"
    proof (intro allI impI, elim conjE)
      fix v
      assume a: "admitted u i act proof clk d c rule v"
        and m: "list_ex (\<lambda>a. actionType a = act \<and> a_proof a = proofHash v)
                   (participantActions (uid u) c)"
      from m have p: "findParticipant (uid u) (participants c) \<noteq> None"
        by (auto simp: participantActions_def split: option.splits)
      show "claimReward u i act proof clk d = (d, Inl (MaxRewardsClaimed N))"
        unfolding claim_admitted [OF a] creditReward_unfold
        using p m tr the full by simp
    qed
  qed
  from ok keep at_cap show ?thesis by blast
qed

theorem claim_cap_witness:
  "claimReward
       (storedFan (sampleState [streamRule (Some 1)]
          [streamRecord 1750000000000 ''c3BvdGlmeV9zdHJlYW1fcHJvb2ZfMTIz'']
          [streamReward 1750000100000]))
       sampleCid ''stream'' ''spotify_stream_proof_12345'' (clockAt 1750000200000)
       (sampleState [streamRule (Some 1)]
          [streamRecord 1750000000000 ''c3BvdGlmeV9zdHJlYW1fcHJvb2ZfMTIz'']
          [streamReward 1750000100000])
     = (sampleState [streamRule (Some 1)]
          [streamRecord 1750000000000 ''c3BvdGlmeV9zdHJlYW1fcHJvb2ZfMTIz'']
          [streamReward 1750000100000],
        Inl (MaxRewardsClaimed 1))"
proof -
  let ?R = "[streamRule (Some 1)]"
  let ?acts = "[streamRecord 1750000000000 ''c3BvdGlmeV9zdHJlYW1fcHJvb2ZfMTIz'']"
  let ?rw = "[streamReward 1750000100000]"
  let ?S = "sampleState ?R ?acts ?rw"
  let ?c = "(sampleCampaign ?R)
              \<lparr>participants := [\<lparr>userId = ''65a000000000000000000002'', actions = ?acts\<rparr>]\<rparr>"
  let ?v = "\<lparr>verified = True, platform = ''spotify'', v_action = ''stream'',
             timestamp = 1750000200000 + 1,
             proofHash = generateProofHash ''spotify_stream_proof_12345'' (1750000200000 + 1),
             v_error = None\<rparr>"
  have r: "find (\<lambda>rule. action rule = ''stream'') ?R = Some (streamRule (Some 1))"
    by (simp add: streamRule_def)
  have adm: "admitted (storedFan ?S) sampleCid ''stream'' ''spotify_stream_proof_12345''
               (clockAt 1750000200000) ?S ?c (streamRule (Some 1)) ?v"
    by (rule sample_admitted [OF r in_window(5,6)])
  then have found: "Campaign_findById ?S sampleCid = Some ?c" by (simp add: admitted_def)
  have cid: "cid ?c = sampleCid" by (simp add: sampleCampaign_def sampleCid_def)
  have rule: "find (\<lambda>rule. action rule = ''stream'') (rewardRules ?c) = Some (streamRule (Some 1))"
    by (simp add: sampleCampaign_def streamRule_def)
  have user: "User_findById ?S (uid (storedFan ?S)) = Some (storedFan ?S)"
    unfolding storedFan_sampleState
    by (simp add: sampleState_def User_findById_def sampleCreator_def sampleFan_def)
  have full: "1 \<le> claimedCount sampleCid (address (r_token (streamRule (Some 1))))
                    (rewardsEarned (storedFan ?S))"
    unfolding storedFan_sampleState by (simp add: sample_side)
  have match: "list_ex (\<lambda>a. actionType a = ''stream'' \<and> a_proof a = proofHash ?v)
                 (participantActions (uid (storedFan ?S)) ?c)"
    unfolding storedFan_sampleState
    by (simp add: participantActions_def findParticipant_def sampleFan_def sample_side)
  have mc: "maxClaims (streamRule (Some 1)) = Some 1" by (simp add: streamRule_def)
  from claim_cap [OF found cid rule mc le_refl user, of "''spotify_stream_proof_12345''"
      "clockAt 1750000200000"] full adm match
  show ?thesis by blast
qed

theorem claim_cap_counterexample:
  "map (\<lambda>rule. (action rule, address (r_token rule), maxClaims rule)) sharedTokenRules
     = [(''stream'', ''0x1234567890123456789012345678901234567890'', Some 5),
        (''share'', ''0x1234567890123456789012345678901234567890'', Some 1)] \<and>
   claimedCount sampleCid ''0x1234567890123456789012345678901234567890''
       (rewardsEarned (storedFan (sampleState sharedTokenRules
          [streamRecord 1750000000000 ''c3BvdGlmeV9zdHJlYW1fcHJvb2ZfMTIz'',
           streamRecord 1750000100000 ''c3BvdGlmeV9zdHJlYW1fcHJvb2ZfNjc4'']
          [streamReward 1750000100000])))
     = 1 \<and>
   claimReward
       (storedFan (sampleState sharedTokenRules
          [streamRecord 1750000000000 ''c3BvdGlmeV9zdHJlYW1fcHJvb2ZfMTIz'',
           streamRecord 1750000100000 ''c3BvdGlmeV9zdHJlYW1fcHJvb2ZfNjc4'']
          [streamReward 1750000100000]))
       sampleCid ''stream'' ''spotify_stream_proof_67890'' (clockAt 1750000200000)
       (sampleState sharedTokenRules
          [streamRecord 1750000000000 ''c3BvdGlmeV9zdHJlYW1fcHJvb2ZfMTIz'',
           streamRecord 1750000100000 ''c3BvdGlmeV9zdHJlYW1fcHJvb2ZfNjc4'']
          [streamReward 1750000100000])
     = (sampleState sharedTokenRules
          [streamRecord 1750000000000 ''c3BvdGlmeV9zdHJlYW1fcHJvb2ZfMTIz'',
           streamRecord 1750000100000 ''c3BvdGlmeV9zdHJlYW1fcHJvb2ZfNjc4'']
          [streamReward 1750000100000, streamReward 1750000200000],
        Inr \<lparr>rr_campaignId = ''65a0000000000000000000c1'', rr_campaignTitle = ''Test Campaign'',
             rr_action = ''stream'', rr_amount = 1 / 2, rr_token = usdc,
             rr_claimedAt = 1750000200002\<rparr>) \<and>
   claimedCount sampleCid ''0x1234567890123456789012345678901234567890''
       (rewardsEarned (storedFan (sampleState sharedTokenRules
          [streamRecord 1750000000000 ''c3BvdGlmeV9zdHJlYW1fcHJvb2ZfMTIz'',
           streamRecord 1750000100000 ''c3BvdGlmeV9zdHJlYW1fcHJvb2ZfNjc4'']
          [streamReward 1750000100000, streamReward 1750000200000])))
     = 2"
proof -
  have r: "find (\<lambda>rule. action rule = ''stream'') sharedTokenRules = Some (streamRule (Some 5))"
    by (simp add: sharedTokenRules_def streamRule_def)
  show ?thesis
    unfolding sample_claim [OF r in_window(5,6)]
    unfolding storedFan_sampleState
    by (simp add: sample_side)
qed

subsection \<open>createCampaign and the allowlist\<close>

lemma validateRewardTokens_find:
  "validateRewardTokens rules =
     (case find (\<lambda>a. \<not> isTokenAllowed a) (map (\<lambda>rule. address (r_token rule)) rules) of
        None \<Rightarrow> Inr True
      | Some a \<Rightarrow> Inl (RewardTokenNotAllowed a))"
  by (induction rules) simp_all

lemma validateCampaignTokens_find:
  "validateCampaignTokens bud rules =
     (case find (\<lambda>a. \<not> isTokenAllowed a)
             (address (b_token bud) # map (\<lambda>rule. address (r_token rule)) rules) of
        None \<Rightarrow> Inr True
      | Some a \<Rightarrow>
          if \<not> isTokenAllowed (address (b_token bud)) then Inl (BudgetTokenNotAllowed a)
          else Inl (RewardTokenNotAllowed a))"
  by (simp add: validateCampaignTokens_def validateRewardTokens_find split: option.splits)

lemma find_Some_if_ex: "\<exists>a \<in> set xs. P a \<Longrightarrow> \<exists>a. find P xs = Some a \<and> P a \<and> a \<in> set xs"
  by (induction xs) auto

text \<open>
  C6. When the budget token or a reward rule's token of a campaign request is not on the
  allowlist, \<open>createCampaign\<close> fails and leaves the store as it was: no campaign is
  inserted and no user document changes, so the creator's \<open>campaignsCreated\<close> is the
  same. For a request that reaches the token validation (a creator, with the start date
  before the end date, which the handler checks first) the failure is the
  token-not-allowed error of \<open>validateCampaignTokens\<close>, naming the first address of
  the request (budget, then rules in order) that is not allowed.
\<close>

theorem createCampaign_rejects_disallowed_token:
  assumes "\<exists>a \<in> set (requestTokens body). \<not> isTokenAllowed a"
  shows "fst (createCampaign schemaError newId now u body d) = d \<and>
         (\<exists>e. snd (createCampaign schemaError newId now u body d) = Inl e) \<and>
         (role u = ''creator'' \<and> req_startDate body < req_endDate body \<longrightarrow>
            (\<exists>a. find (\<lambda>a. \<not> isTokenAllowed a) (requestTokens body) = Some a \<and>
                 \<not> isTokenAllowed a \<and> a \<in> set (requestTokens body) \<and>
                 snd (createCampaign schemaError newId now u body d) =
                   (if \<not> isTokenAllowed (address (b_token (req_budget body)))
                    then Inl (BudgetTokenNotAllowed a) else Inl (RewardTokenNotAllowed a))))"
proof -
  from find_Some_if_ex [OF assms] obtain a where
    a: "find (\<lambda>a. \<not> isTokenAllowed a) (requestTokens body) = Some a"
    and bad: "\<not> isTokenAllowed a" and mem: "a \<in> set (requestTokens body)"
    by blast
  let ?e = "if \<not> isTokenAllowed (address (b_token (req_budget body)))
            then BudgetTokenNotAllowed a else RewardTokenNotAllowed a"
  have v: "validateCampaignTokens (req_budget body) (req_rewardRules body) = Inl ?e"
    using a unfolding validateCampaignTokens_find requestTokens_def by simp
  have res: "createCampaign schemaError newId now u body d =
      (d, if role u \<noteq> ''creator'' then Inl OnlyCreators
          else if req_endDate body \<le> req_startDate body then Inl EndDateNotAfterStart
          else Inl ?e)"
    by (simp add: createCampaign_def v)
  show ?thesis
    unfolding res using a bad mem by auto
qed

theorem createCampaign_rejects_disallowed_token_witness:
  "createCampaign (\<lambda>c. None) ''65a0000000000000000000c9'' 1735000000000 sampleCreator
       (sampleBody usdc
          [streamRule (Some 10),
           \<lparr>action = ''share'', rewardAmount = 1 / 4,
            r_token = \<lparr>address = ''0x00000000000000000000000000000000deadbeef'', name = ''BAD''\<rparr>,
            maxClaims = None\<rparr>])
       (sampleDb [])
     = (sampleDb [], Inl (RewardTokenNotAllowed ''0x00000000000000000000000000000000deadbeef''))"
proof -
  let ?bad = "\<lparr>action = ''share'', rewardAmount = 1 / 4,
            r_token = \<lparr>address = ''0x00000000000000000000000000000000deadbeef'', name = ''BAD''\<rparr>,
            maxClaims = None\<rparr>"
  let ?body = "sampleBody usdc [streamRule (Some 10), ?bad]"
  let ?run = "createCampaign (\<lambda>c. None) ''65a0000000000000000000c9'' 1735000000000 sampleCreator
                ?body (sampleDb [])"
  have ok: "isTokenAllowed ''0x1234567890123456789012345678901234567890''"
    by (simp add: isTokenAllowed_def getAllowedTokens_def toLowerCase_def lower_char_def)
  have no: "\<not> isTokenAllowed ''0x00000000000000000000000000000000deadbeef''"
    by (simp add: isTokenAllowed_def getAllowedTokens_def toLowerCase_def lower_char_def)
  have toks: "requestTokens ?body =
      [''0x1234567890123456789012345678901234567890'',
       ''0x1234567890123456789012345678901234567890'',
       ''0x00000000000000000000000000000000deadbeef'']"
    by (simp add: requestTokens_def sampleBody_def streamRule_def usdc_def)
  have hyp: "\<exists>a \<in> set (requestTokens ?body). \<not> isTokenAllowed a"
    unfolding toks using no by simp
  have pre: "role sampleCreator = ''creator'' \<and> req_startDate ?body < req_endDate ?body"
    by (simp add: sampleCreator_def sampleBody_def)
  have first: "find (\<lambda>a. \<not> isTokenAllowed a) (requestTokens ?body)
                 = Some ''0x00000000000000000000000000000000deadbeef''"
    unfolding toks using ok no by simp
  have bud: "isTokenAllowed (address (b_token (req_budget ?body)))"
    using ok by (simp add: sampleBody_def usdc_def)
  from createCampaign_rejects_disallowed_token [OF hyp, of "\<lambda>c. None"
      "''65a0000000000000000000c9''" 1735000000000 sampleCreator "sampleDb []"] pre first bud
  have "fst ?run = sampleDb []"
    and "snd ?run = Inl (RewardTokenNotAllowed ''0x00000000000000000000000000000000deadbeef'')"
    by auto
  then show ?thesis by (simp add: prod_eq_iff)
qed

subsection \<open>Listing campaigns\<close>

lemma pageCount_eq:
  assumes "0 < l"
  shows "pageCount t l = (if t mod l = 0 then t div l else t div l + 1)"
proof -
  have "\<lceil>rat_of_nat t / rat_of_nat l\<rceil> = - (- int t div int l)"
    using ceiling_divide_eq_div [of "int t" "int l", where ?'a = rat] by simp
  also have "\<dots> = (if int t mod int l = 0 then int t div int l else int t div int l + 1)"
    using assms by (simp add: zdiv_zminus1_eq_if)
  finally have "pageCount t l =
      nat (if int t mod int l = 0 then int t div int l else int t div int l + 1)"
    by (simp add: pageCount_def)
  also have "\<dots> = (if t mod l = 0 then t div l else t div l + 1)"
    by (simp add: zdiv_int [symmetric] zmod_int [symmetric] nat_add_distrib
          del: of_nat_div of_nat_mod)
  finally show ?thesis .
qed

lemma pageCount_covers:
  assumes "0 < l"
  shows "t \<le> pageCount t l * l"
proof (cases "t mod l = 0")
  case True
  have "t = t div l * l + t mod l" by simp
  with True have "t = t div l * l" by simp
  then have "t \<le> t div l * l" by simp
  with True show ?thesis using assms by (simp add: pageCount_eq)
next
  case False
  have "t = t div l * l + t mod l" by simp
  also have "\<dots> \<le> t div l * l + l"
    by (intro add_left_mono less_imp_le mod_less_divisor assms)
  finally show ?thesis using assms False by (simp add: pageCount_eq)
qed

lemma pageCount_tight:
  assumes "0 < l"
  shows "pageCount t l * l < t + l"
proof (cases "t mod l = 0")
  case True
  have "t = t div l * l + t mod l" by simp
  with True have "t div l * l = t" by simp
  with True show ?thesis using assms by (simp add: pageCount_eq)
next
  case False
  have "t div l * l + 0 < t div l * l + t mod l"
    using False by (intro add_strict_left_mono) simp
  also have "\<dots> = t" by simp
  finally have "t div l * l < t" by simp
  then have "t div l * l + l < t + l" by simp
  then show ?thesis using assms False by (simp add: pageCount_eq)
qed

lemma pageCount_ceiling:
  "int (pageCount t l) = \<lceil>rat_of_nat t / rat_of_nat l\<rceil>"
proof -
  have "0 \<le> rat_of_nat t / rat_of_nat l" by simp
  then have "- 1 < rat_of_nat t / rat_of_nat l" by (rule less_le_trans [rotated]) simp
  then have "0 \<le> \<lceil>rat_of_nat t / rat_of_nat l\<rceil>" by (simp only: zero_le_ceiling)
  then show ?thesis by (simp add: pageCount_def)
qed

lemma pages_concat:
  "length xs \<le> n * l \<Longrightarrow> concat (map (\<lambda>p. take l (drop (p * l) xs)) [0..<n]) = xs"
proof (induction n arbitrary: xs)
  case 0
  then show ?case by simp
next
  case (Suc n)
  have "[0..<Suc n] = 0 # map Suc [0..<n]"
    by (simp add: upt_conv_Cons map_Suc_upt del: upt_Suc)
  then have "concat (map (\<lambda>p. take l (drop (p * l) xs)) [0..<Suc n]) =
      take l xs @ concat (map (\<lambda>p. take l (drop (p * l) (drop l xs))) [0..<n])"
    by (simp add: comp_def add.commute del: upt_Suc)
  also have "concat (map (\<lambda>p. take l (drop (p * l) (drop l xs))) [0..<n]) = drop l xs"
    using Suc.prems by (intro Suc.IH) simp
  finally show ?case by simp
qed

lemma pages_concat_from_one:
  assumes "length xs \<le> n * l"
  shows "concat (map (\<lambda>p. take l (drop ((p - 1) * l) xs)) [1..<Suc n]) = xs"
proof -
  have "[1..<Suc n] = map Suc [0..<n]" by (simp add: map_Suc_upt del: upt_Suc)
  then have "concat (map (\<lambda>p. take l (drop ((p - 1) * l) xs)) [1..<Suc n]) =
      concat (map (\<lambda>p. take l (drop (p * l) xs)) [0..<n])"
    by (simp add: comp_def del: upt_Suc)
  with pages_concat [OF assms] show ?thesis by simp
qed

lemma sortNewestFirst_sorted:
  "sorted_wrt (\<lambda>a b. createdAt b \<le> createdAt a) (sortNewestFirst cs)"
proof -
  have "sorted (map (\<lambda>c. - int (createdAt c)) (sortNewestFirst cs))"
    unfolding sortNewestFirst_def by (rule sorted_sort_key)
  then show ?thesis by (simp add: sorted_map)
qed

lemma sortNewestFirst_mset: "mset (sortNewestFirst cs) = mset cs"
  unfolding sortNewestFirst_def by (rule mset_sort)

lemma sortNewestFirst_length: "length (sortNewestFirst cs) = length cs"
  unfolding sortNewestFirst_def by simp

lemma sortNewestFirst_set: "set (sortNewestFirst cs) = set cs"
  unfolding sortNewestFirst_def by simp

lemma activeOnly_filter:
  assumes "activeOnly q"
  shows "filter (matchesFilter (buildFilter q d)) (campaigns d) = activeCampaigns d"
proof -
  have "matchesFilter (buildFilter q d) = (\<lambda>c. status c = ''active'')"
    using assms by (simp add: activeOnly_def matchesFilter_def buildFilter_def truthy_str_def fun_eq_iff)
  then show ?thesis by (simp add: activeCampaigns_def)
qed

lemma validatePagination_ok:
  "validatePagination q = None \<longleftrightarrow> 1 \<le> pageOf q \<and> 1 \<le> limitOf q \<and> limitOf q \<le> 100"
  by (auto simp add: validatePagination_def pageOf_def limitOf_def split: option.splits)

text \<open>One page of the listing of active campaigns.\<close>

lemma activeOnly_page:
  assumes "activeOnly q" and "validatePagination q = None"
  shows "listCampaigns q d =
     Inr \<lparr>res_campaigns = take (limitOf q) (drop ((pageOf q - 1) * limitOf q)
                              (sortNewestFirst (activeCampaigns d))),
          res_pagination = \<lparr>pg_page = pageOf q, pg_limit = limitOf q,
                             pg_total = length (activeCampaigns d),
                             pg_pages = pageCount (length (activeCampaigns d)) (limitOf q)\<rparr>\<rparr>"
  using assms(2)
  by (simp add: listCampaigns_def getCampaigns_def Let_def activeOnly_filter [OF assms(1)]
        pageOf_def limitOf_def)

text \<open>
  C9. A listing request that filters on the status active only and passes
  \<open>validatePagination\<close> (page from 1, limit from 1 to 100, or the defaults 1 and 10) is
  answered with the requested page of the active campaigns ordered by creation time,
  newest first: the page holds active stored campaigns only, in descending order of
  \<open>createdAt\<close>; \<open>pagination.total\<close> is the number of active campaigns and
  \<open>pagination.pages\<close> is the ceiling of total / limit, the least number of pages of
  that size that hold them all. Exactly the active campaigns are returned: the pages
  1 to \<open>pagination.pages\<close> of the same request, one after the other, are the active
  campaigns, each as often as it is stored, in descending order of creation time.
\<close>

theorem listCampaigns_active:
  assumes "activeOnly q" and "validatePagination q = None"
  shows "\<exists>r. listCampaigns q d = Inr r \<and>
     res_campaigns r = take (limitOf q) (drop ((pageOf q - 1) * limitOf q)
                          (sortNewestFirst (activeCampaigns d))) \<and>
     set (res_campaigns r) \<subseteq> {c \<in> set (campaigns d). status c = ''active''} \<and>
     sorted_wrt (\<lambda>a b. createdAt b \<le> createdAt a) (res_campaigns r) \<and>
     pg_page (res_pagination r) = pageOf q \<and>
     pg_limit (res_pagination r) = limitOf q \<and>
     pg_total (res_pagination r) = length (activeCampaigns d) \<and>
     int (pg_pages (res_pagination r)) =
        \<lceil>rat_of_nat (pg_total (res_pagination r)) / rat_of_nat (pg_limit (res_pagination r))\<rceil> \<and>
     pg_total (res_pagination r) \<le> pg_pages (res_pagination r) * pg_limit (res_pagination r) \<and>
     pg_pages (res_pagination r) * pg_limit (res_pagination r)
        < pg_total (res_pagination r) + pg_limit (res_pagination r) \<and>
     concat (map (\<lambda>p. pageItems (listCampaigns (q\<lparr>q_page := Some p\<rparr>) d))
               [1..<Suc (pg_pages (res_pagination r))])
        = sortNewestFirst (activeCampaigns d) \<and>
     mset (sortNewestFirst (activeCampaigns d)) = mset (activeCampaigns d) \<and>
     sorted_wrt (\<lambda>a b. createdAt b \<le> createdAt a) (sortNewestFirst (activeCampaigns d))"
proof -
  let ?A = "activeCampaigns d"
  let ?S = "sortNewestFirst ?A"
  let ?l = "limitOf q"
  let ?n = "pageCount (length ?A) ?l"
  let ?page = "take ?l (drop ((pageOf q - 1) * ?l) ?S)"
  let ?r = "\<lparr>res_campaigns = ?page,
             res_pagination = \<lparr>pg_page = pageOf q, pg_limit = ?l, pg_total = length ?A,
                                pg_pages = ?n\<rparr>\<rparr>"
  from assms(2) have l: "0 < ?l" and l100: "?l \<le> 100"
    by (simp_all add: validatePagination_ok)
  have res: "listCampaigns q d = Inr ?r"
    by (rule activeOnly_page [OF assms])
  have "set ?page \<subseteq> set (drop ((pageOf q - 1) * ?l) ?S)" by (rule set_take_subset)
  also have "\<dots> \<subseteq> set ?S" by (rule set_drop_subset)
  also have "\<dots> = {c \<in> set (campaigns d). status c = ''active''}"
    by (simp add: sortNewestFirst_set activeCampaigns_def)
  finally have sub: "set ?page \<subseteq> {c \<in> set (campaigns d). status c = ''active''}" .
  have srt: "sorted_wrt (\<lambda>a b. createdAt b \<le> createdAt a) ?page"
    by (intro sorted_wrt_take sorted_wrt_drop sortNewestFirst_sorted)
  have each: "pageItems (listCampaigns (q\<lparr>q_page := Some p\<rparr>) d) =
                take ?l (drop ((p - 1) * ?l) ?S)" if "p \<in> set [1..<Suc ?n]" for p
  proof -
    from that have p: "1 \<le> p" by (simp del: upt_Suc)
    have a: "activeOnly (q\<lparr>q_page := Some p\<rparr>)"
      using assms(1) by (simp add: activeOnly_def)
    have lim: "limitOf (q\<lparr>q_page := Some p\<rparr>) = ?l" by (simp add: limitOf_def)
    have pg: "pageOf (q\<lparr>q_page := Some p\<rparr>) = p" by (simp add: pageOf_def)
    have v: "validatePagination (q\<lparr>q_page := Some p\<rparr>) = None"
      unfolding validatePagination_ok lim pg using p l l100 by simp
    show ?thesis
      unfolding activeOnly_page [OF a v] lim pg by (simp add: pageItems_def)
  qed
  have "map (\<lambda>p. pageItems (listCampaigns (q\<lparr>q_page := Some p\<rparr>) d)) [1..<Suc ?n] =
        map (\<lambda>p. take ?l (drop ((p - 1) * ?l) ?S)) [1..<Suc ?n]"
    by (rule map_cong [OF refl each])
  moreover have "length ?S \<le> ?n * ?l"
    unfolding sortNewestFirst_length by (rule pageCount_covers [OF l])
  ultimately have pages:
    "concat (map (\<lambda>p. pageItems (listCampaigns (q\<lparr>q_page := Some p\<rparr>) d)) [1..<Suc ?n]) = ?S"
    by (simp only: pages_concat_from_one)
  have "listCampaigns q d = Inr ?r \<and>
     res_campaigns ?r = ?page \<and>
     set (res_campaigns ?r) \<subseteq> {c \<in> set (campaigns d). status c = ''active''} \<and>
     sorted_wrt (\<lambda>a b. createdAt b \<le> createdAt a) (res_campaigns ?r) \<and>
     pg_page (res_pagination ?r) = pageOf q \<and>
     pg_limit (res_pagination ?r) = limitOf q \<and>
     pg_total (res_pagination ?r) = length (activeCampaigns d) \<and>
     int (pg_pages (res_pagination ?r)) =
        \<lceil>rat_of_nat (pg_total (res_pagination ?r)) / rat_of_nat (pg_limit (res_pagination ?r))\<rceil> \<and>
     pg_total (res_pagination ?r) \<le> pg_pages (res_pagination ?r) * pg_limit (res_pagination ?r) \<and>
     pg_pages (res_pagination ?r) * pg_limit (res_pagination ?r)
        < pg_total (res_pagination ?r) + pg_limit (res_pagination ?r) \<and>
     concat (map (\<lambda>p. pageItems (listCampaigns (q\<lparr>q_page := Some p\<rparr>) d))
               [1..<Suc (pg_pages (res_pagination ?r))]) = ?S \<and>
     mset ?S = mset ?A \<and>
     sorted_wrt (\<lambda>a b. createdAt b \<le> createdAt a) ?S"
    unfolding listResult.simps pagination.simps
    by (intro conjI res refl sub srt pageCount_ceiling pageCount_covers [OF l]
          pageCount_tight [OF l] pages sortNewestFirst_mset sortNewestFirst_sorted)
  then show ?thesis by (rule exI [of _ ?r])
qed

theorem listCampaigns_active_witness:
  "activeOnly (activeQuery 1 1) \<and> validatePagination (activeQuery 1 1) = None \<and>
   map cid (pageItems (listCampaigns (activeQuery 1 1) listedDb)) = [''65a0000000000000000000c3''] \<and>
   map cid (pageItems (listCampaigns (activeQuery 2 1) listedDb)) = [''65a0000000000000000000c2''] \<and>
   map (pg_total \<circ> res_pagination) (case listCampaigns (activeQuery 1 1) listedDb of Inr r \<Rightarrow> [r] | Inl _ \<Rightarrow> []) = [2] \<and>
   map (pg_pages \<circ> res_pagination) (case listCampaigns (activeQuery 1 1) listedDb of Inr r \<Rightarrow> [r] | Inl _ \<Rightarrow> []) = [2]"
proof -
  have a: "activeOnly (activeQuery 1 1)" by (simp add: activeOnly_def activeQuery_def)
  have v: "validatePagination (activeQuery 1 1) = None"
    by (simp add: validatePagination_def activeQuery_def)
  have act: "map cid (activeCampaigns listedDb) =
               [''65a0000000000000000000c2'', ''65a0000000000000000000c3'']"
    by (simp add: activeCampaigns_def listedDb_def sampleCampaign_def)
  have len: "length (activeCampaigns listedDb) = 2"
    using arg_cong [OF act, of length] by simp
  have srt: "map cid (sortNewestFirst (activeCampaigns listedDb)) =
               [''65a0000000000000000000c3'', ''65a0000000000000000000c2'']"
    by (simp add: sortNewestFirst_def activeCampaigns_def listedDb_def sampleCampaign_def)
  have q2: "activeQuery 1 1\<lparr>q_page := Some 2\<rparr> = activeQuery 2 1"
    by (simp add: activeQuery_def)
  have lim: "limitOf (activeQuery 1 1) = 1" "pageOf (activeQuery 1 1) = 1"
    by (simp_all add: limitOf_def pageOf_def activeQuery_def)
  from listCampaigns_active [OF a v, of listedDb] obtain r where
    r: "listCampaigns (activeQuery 1 1) listedDb = Inr r"
    and items: "res_campaigns r = take (limitOf (activeQuery 1 1))
        (drop ((pageOf (activeQuery 1 1) - 1) * limitOf (activeQuery 1 1))
           (sortNewestFirst (activeCampaigns listedDb)))"
    and tot: "pg_total (res_pagination r) = length (activeCampaigns listedDb)"
    and lm: "pg_limit (res_pagination r) = limitOf (activeQuery 1 1)"
    and lo: "pg_total (res_pagination r) \<le> pg_pages (res_pagination r) * pg_limit (res_pagination r)"
    and hi: "pg_pages (res_pagination r) * pg_limit (res_pagination r)
               < pg_total (res_pagination r) + pg_limit (res_pagination r)"
    by blast
  have p1: "map cid (res_campaigns r) = [''65a0000000000000000000c3'']"
    unfolding items lim using srt by (simp add: take_map [symmetric])
  have pgs: "pg_pages (res_pagination r) = 2"
    using lo hi unfolding tot lm lim len by simp
  have a2: "activeOnly (activeQuery 2 1)" by (simp add: activeOnly_def activeQuery_def)
  have v2: "validatePagination (activeQuery 2 1) = None"
    by (simp add: validatePagination_def activeQuery_def)
  have lim2: "limitOf (activeQuery 2 1) = 1" "pageOf (activeQuery 2 1) = 2"
    by (simp_all add: limitOf_def pageOf_def activeQuery_def)
  have p2: "map cid (pageItems (listCampaigns (activeQuery 2 1) listedDb)) =
              [''65a0000000000000000000c2'']"
    unfolding activeOnly_page [OF a2 v2] lim2 using srt
    by (simp add: pageItems_def take_map [symmetric] drop_map [symmetric])
  show ?thesis
    unfolding r using a v p1 p2 pgs tot len by (simp add: pageItems_def)
qed

subsection \<open>The creator filter\<close>




end
